theory Spec2Isabelle
  imports Complex_Main "HOL-Library.DAList" "HOL-Library.Char_ord" "HOL-Library.List_Lexorder"
    "HOL-Library.Log_Nat"
begin

section \<open>Strings\<close>

text \<open>
  A JavaScript string is modelled as a \<open>string\<close>: a list of code units below 256
  (Latin-1). The helpers below are the string primitives that \<open>search.ts\<close> and
  \<open>server.ts\<close> call, restricted to that range.
\<close>

abbreviation NL :: char where
  "NL \<equiv> CHR 0x0A"

text \<open>The class \<open>\s\<close> of a regular expression, which is also what \<open>trim\<close> strips.\<close>

definition isSpace :: "char \<Rightarrow> bool" where
  "isSpace c = (c \<in> set [CHR 0x09, CHR 0x0A, CHR 0x0B, CHR 0x0C, CHR 0x0D, CHR 0x20, CHR 0xA0])"

text \<open>\<open>String.prototype.toLowerCase\<close>, one code unit at a time.\<close>

definition toLowerChar :: "char \<Rightarrow> char" where
  "toLowerChar c =
     (let n = (of_char c :: nat)
      in if (65 \<le> n \<and> n \<le> 90) \<or> (192 \<le> n \<and> n \<le> 222 \<and> n \<noteq> 215)
         then char_of (n + 32) else c)"

definition toLowerCase :: "string \<Rightarrow> string" where
  "toLowerCase s = map toLowerChar s"

text \<open>
  The canonical form that a regular expression with the flag \<open>i\<close> (and without \<open>u\<close>)
  compares: the upper-case code unit, when there is one in range.
\<close>

definition canon :: "char \<Rightarrow> char" where
  "canon c =
     (let n = (of_char c :: nat)
      in if (97 \<le> n \<and> n \<le> 122) \<or> (224 \<le> n \<and> n \<le> 254 \<and> n \<noteq> 247)
         then char_of (n - 32) else c)"

text \<open>\<open>s.split(/\s+/)\<close>: the flag says whether the scan is inside a separator.\<close>

fun splitWs :: "bool \<Rightarrow> string \<Rightarrow> string \<Rightarrow> string list" where
  "splitWs insep cur [] = [cur]"
| "splitWs insep cur (c # cs) =
     (if isSpace c
      then (if insep then splitWs True cur cs else cur # splitWs True [] cs)
      else splitWs False (cur @ [c]) cs)"

definition split_ws :: "string \<Rightarrow> string list" where
  "split_ws s = splitWs False [] s"

fun startsWith :: "string \<Rightarrow> string \<Rightarrow> bool" where
  "startsWith s [] = True"
| "startsWith [] (p # ps) = False"
| "startsWith (c # cs) (p # ps) = (c = p \<and> startsWith cs ps)"

text \<open>\<open>s.includes(t)\<close>.\<close>

fun js_includes :: "string \<Rightarrow> string \<Rightarrow> bool" where
  "js_includes [] t = (t = [])"
| "js_includes (c # cs) t = (startsWith (c # cs) t \<or> js_includes cs t)"

text \<open>\<open>s.substring(a, b)\<close>: both ends are clamped to the string and swapped if reversed.\<close>

definition substring :: "string \<Rightarrow> int \<Rightarrow> int \<Rightarrow> string" where
  "substring s a b =
     (let n = int (length s);
          a' = max 0 (min a n);
          b' = max 0 (min b n);
          lo = min a' b';
          hi = max a' b'
      in take (nat (hi - lo)) (drop (nat lo) s))"

text \<open>\<open>s.substring(a)\<close>.\<close>

definition substringFrom :: "string \<Rightarrow> int \<Rightarrow> string" where
  "substringFrom s a = substring s a (int (length s))"

text \<open>\<open>s.indexOf(' ')\<close> and \<open>s.lastIndexOf(' ')\<close>, \<open>-1\<close> when there is none.\<close>

fun indexOfFrom :: "int \<Rightarrow> char \<Rightarrow> string \<Rightarrow> int" where
  "indexOfFrom i c [] = -1"
| "indexOfFrom i c (x # xs) = (if x = c then i else indexOfFrom (i + 1) c xs)"

definition indexOf :: "string \<Rightarrow> char \<Rightarrow> int" where
  "indexOf s c = indexOfFrom 0 c s"

definition lastIndexOf :: "string \<Rightarrow> char \<Rightarrow> int" where
  "lastIndexOf s c =
     (let k = indexOf (rev s) c in if k < 0 then -1 else int (length s) - 1 - k)"

definition trim :: "string \<Rightarrow> string" where
  "trim s = rev (dropWhile isSpace (rev (dropWhile isSpace s)))"

text \<open>\<open>xs.join(sep)\<close>.\<close>

fun join :: "string \<Rightarrow> string list \<Rightarrow> string" where
  "join sep [] = []"
| "join sep [x] = x"
| "join sep (x # y # ys) = x @ sep @ join sep (y # ys)"

text \<open>
  \<open>xs.slice(0, n)\<close> for an integral \<open>n\<close>: a negative end counts from the end of the
  array.
\<close>

definition slice0 :: "int \<Rightarrow> 'a list \<Rightarrow> 'a list" where
  "slice0 n xs = (if n < 0 then take (nat (int (length xs) + n)) xs else take (nat n) xs)"


section \<open>Numbers\<close>

text \<open>
  A JavaScript number is a double. The word counts are modelled as integers, and the sum
  of two of them as \<open>+\<close> computes it: the exact sum, rounded to the nearest double with
  ties going to the even significand. A double holds 53 significant bits, so every
  integer up to \<open>2 ^ 53\<close> in magnitude is kept and above that the spacing is
  \<open>2 ^ (bitlen a - 53)\<close>. Word counts with a fraction and sums beyond the range of the
  finite doubles are outside the model.
\<close>

definition roundDouble :: "int \<Rightarrow> int" where
  "roundDouble x =
     (let a = \<bar>x\<bar>
      in if a \<le> 2 ^ 53 then x
         else (let q = 2 ^ nat (bitlen a - 53);
                   lo = (a div q) * q;
                   r = a mod q;
                   m = (if 2 * r < q then lo
                        else if 2 * r > q then lo + q
                        else if even (a div q) then lo else lo + q)
               in sgn x * m))"

definition num_add :: "int \<Rightarrow> int \<Rightarrow> int" where
  "num_add a b = roundDouble (a + b)"


section \<open>Data model (types.ts)\<close>

datatype Difficulty = beginner | intermediate | advanced

record DocumentHeading =
  heading_level :: int
  heading_text :: string
  heading_anchor :: string

record DocumentMetadata =
  wordCount :: int
  readingTime :: int
  difficulty :: Difficulty
  tags :: "string list"
  relatedDocuments :: "string list"
  headings :: "DocumentHeading list"

record ParsedDocument =
  doc_id :: string
  doc_title :: string
  doc_content :: string
  doc_section :: string
  doc_subsection :: "string option"
  doc_filePath :: string
  doc_lastModified :: int
  doc_metadata :: DocumentMetadata

record SearchFilters =
  filter_section :: "string option"

record SearchMetadata =
  meta_query :: string
  meta_searchTime :: int
  meta_totalResults :: nat
  meta_filters :: "SearchFilters option"

record SearchResult =
  res_document :: ParsedDocument
  res_score :: real
  res_snippet :: string
  res_highlights :: "string list"
  res_metadata :: SearchMetadata

text \<open>
  \<open>SearchOptions\<close>: every field is optional. \<open>limit\<close> is a JavaScript number; the
  model covers the integral ones.
\<close>

record SearchOptions =
  opt_limit :: "int option"
  opt_section :: "string option"
  opt_includeContent :: "bool option"

record SearchConfig =
  maxResults :: int
  snippetLength :: int
  minScore :: real

record IndexStats =
  totalDocuments :: nat
  totalWords :: int
  stats_lastIndexed :: int
  stats_sections :: "string list"

datatype ErrorType = VALIDATION | PARSING | SEARCH | GIT | NETWORK | SYSTEM | NOT_FOUND

text \<open>The \<open>search\<close> block of \<open>DEFAULT_CONFIG\<close> (config.ts).\<close>

definition DEFAULT_CONFIG_search :: SearchConfig where
  "DEFAULT_CONFIG_search = \<lparr>maxResults = 10, snippetLength = 200, minScore = 0.1\<rparr>"


section \<open>Errors (errors.ts)\<close>

text \<open>
  A \<open>KlipperError\<close> carries its class name, message, type, context and details. The
  time stamp and the stack trace it also records come from the runtime and are left out.
\<close>

record KlipperError =
  err_name :: string
  err_message :: string
  err_type :: ErrorType
  err_context :: string
  err_details :: "(string \<times> string) list option"

text \<open>
  What a \<open>catch\<close> clause can receive: a \<open>KlipperError\<close>, another \<open>Error\<close> (its name and
  message), or any other value (its rendering by \<open>String\<close>).
\<close>

datatype thrown =
    ThrownKlipper KlipperError
  | ThrownError string string
  | ThrownOther string

definition SearchError :: "string \<Rightarrow> string \<Rightarrow> KlipperError" where
  "SearchError msg ctx =
     \<lparr>err_name = ''SearchError'', err_message = msg, err_type = SEARCH,
      err_context = ctx, err_details = None\<rparr>"

fun handleError :: "thrown \<Rightarrow> string \<Rightarrow> KlipperError" where
  "handleError (ThrownKlipper e) ctx = e"
| "handleError (ThrownError name msg) ctx =
     \<lparr>err_name = ''KlipperError'', err_message = msg, err_type = SYSTEM,
      err_context = ctx, err_details = Some [(''originalError'', name)]\<rparr>"
| "handleError (ThrownOther msg) ctx =
     \<lparr>err_name = ''KlipperError'', err_message = msg, err_type = SYSTEM,
      err_context = ctx, err_details = None\<rparr>"

text \<open>The message of whatever was thrown, as \<open>handleError\<close> reads it.\<close>

fun thrown_message :: "thrown \<Rightarrow> string" where
  "thrown_message (ThrownKlipper e) = err_message e"
| "thrown_message (ThrownError name msg) = msg"
| "thrown_message (ThrownOther msg) = msg"


section \<open>The lunr library, as the engine uses it\<close>

text \<open>
  \<open>search.ts\<close> builds and queries its index through the third-party library lunr. The
  library is a parameter of the model: a builder that receives the configuration and the
  documents that the callback of \<open>buildIndex\<close> hands over and returns an index or throws,
  and an index whose \<open>search\<close> returns its matches or throws.
\<close>

record lunr_doc =
  ld_id :: string
  ld_title :: string
  ld_content :: string
  ld_section :: string
  ld_tags :: string

record lunr_config =
  cfg_ref :: string
  cfg_fields :: "(string \<times> int option) list"
  cfg_metadataWhitelist :: "string list"

text \<open>
  One match: the reference of the document, its score, and the keys of
  \<open>matchData.metadata\<close> (\<open>None\<close> when either object is missing).
\<close>

record lunr_result =
  ref :: string
  score :: real
  matchData_metadata :: "string list option"

record lunr_Index =
  index_search :: "string \<Rightarrow> thrown + lunr_result list"

type_synonym lunr = "lunr_config \<Rightarrow> lunr_doc list \<Rightarrow> thrown + lunr_Index"


section \<open>The search engine (search.ts)\<close>

text \<open>
  The three private fields of \<open>SearchEngine\<close>. The document store is a JavaScript
  \<open>Map\<close>: distinct keys in insertion order.
\<close>

record SearchEngine =
  index :: "lunr_Index option"
  docs :: "(string, ParsedDocument) alist"
  lastIndexed :: "int option"

definition newSearchEngine :: SearchEngine where
  "newSearchEngine = \<lparr>index = None, docs = DAList.empty, lastIndexed = None\<rparr>"

text \<open>\<open>Array.from(m.values())\<close>.\<close>

definition map_values :: "(string, ParsedDocument) alist \<Rightarrow> ParsedDocument list" where
  "map_values m = map snd (DAList.impl_of m)"

text \<open>The configuration that the callback passed to \<open>lunr\<close> sets up.\<close>

definition index_config :: lunr_config where
  "index_config =
     \<lparr>cfg_ref = ''id'',
      cfg_fields = [(''title'', Some 10), (''content'', None), (''section'', Some 5),
                    (''tags'', Some 3)],
      cfg_metadataWhitelist = [''position'']\<rparr>"

definition to_lunr_doc :: "ParsedDocument \<Rightarrow> lunr_doc" where
  "to_lunr_doc d =
     \<lparr>ld_id = doc_id d, ld_title = doc_title d, ld_content = doc_content d,
      ld_section = doc_section d, ld_tags = join '' '' (tags (doc_metadata d))\<rparr>"

text \<open>
  \<open>buildIndex\<close>: the store is assigned first; the index and the time stamp only when
  lunr has returned. \<open>now\<close> is the clock reading of \<open>new Date()\<close>. Logging is not
  modelled.
\<close>

definition buildIndex ::
  "lunr \<Rightarrow> int \<Rightarrow> SearchEngine \<Rightarrow> (string, ParsedDocument) alist
     \<Rightarrow> (KlipperError + unit) \<times> SearchEngine" where
  "buildIndex lunr_lib now eng documents =
     (let eng1 = eng\<lparr>docs := documents\<rparr>;
          docsArray = map_values documents
      in case lunr_lib index_config (map to_lunr_doc docsArray) of
           Inl e \<Rightarrow> (Inl (handleError e ''SearchEngine.buildIndex''), eng1)
         | Inr idx \<Rightarrow> (Inr (), eng1\<lparr>index := Some idx, lastIndexed := Some now\<rparr>))"

function snippetScan :: "int \<Rightarrow> string list \<Rightarrow> string \<Rightarrow> int \<Rightarrow> nat \<Rightarrow> int \<Rightarrow> int" where
  "snippetScan len queryTerms lowerContent i bestScore bestPosition =
     (if i < int (length lowerContent) - len
      then (let window = substring lowerContent i (i + len);
                sc = length (filter (\<lambda>term. js_includes window term) queryTerms)
            in if sc > bestScore
               then snippetScan len queryTerms lowerContent (i + 50) sc i
               else snippetScan len queryTerms lowerContent (i + 50) bestScore bestPosition)
      else bestPosition)"
  by pat_completeness auto
termination
  by (relation "measure (\<lambda>(len, qs, lc, i, bs, bp). nat (int (length lc) - len - i))") auto

definition generateSnippet :: "SearchConfig \<Rightarrow> string \<Rightarrow> string \<Rightarrow> string" where
  "generateSnippet cfg content query =
     (let len = snippetLength cfg;
          queryTerms = split_ws (toLowerCase query);
          lowerContent = toLowerCase content;
          bestPosition = snippetScan len queryTerms lowerContent 0 0 0;
          snippet0 = substring content bestPosition (bestPosition + len);
          snippet1 =
            (if bestPosition > 0
             then (let firstSpace = indexOf snippet0 CHR '' ''
                   in if firstSpace > 0 \<and> firstSpace < 20
                      then ''...'' @ substringFrom snippet0 (firstSpace + 1)
                      else snippet0)
             else snippet0);
          snippet2 =
            (if bestPosition + len < int (length content)
             then (let lastSpace = lastIndexOf snippet1 CHR '' ''
                   in if lastSpace > len - 20
                      then substring snippet1 0 lastSpace @ ''...''
                      else snippet1)
             else snippet1)
      in trim snippet2)"

definition extractHighlights :: "lunr_result \<Rightarrow> string \<Rightarrow> string list" where
  "extractHighlights result query =
     (let queryTerms = split_ws (toLowerCase query)
      in case matchData_metadata result of
           None \<Rightarrow> []
         | Some terms \<Rightarrow>
             filter (\<lambda>term. list_ex (\<lambda>qt. js_includes term qt \<or> js_includes qt term) queryTerms)
               terms)"

text \<open>A string is truthy when it is not empty, a number when it is not zero.\<close>

definition section_filter :: "SearchOptions \<Rightarrow> string option" where
  "section_filter options =
     (case opt_section options of
        None \<Rightarrow> None
      | Some s \<Rightarrow> if s = [] then None else Some s)"

definition effective_limit :: "SearchConfig \<Rightarrow> SearchOptions \<Rightarrow> int" where
  "effective_limit cfg options =
     (case opt_limit options of
        None \<Rightarrow> maxResults cfg
      | Some n \<Rightarrow> if n = 0 then maxResults cfg else n)"

text \<open>
  The two filters and the truncation of \<open>search\<close>, in the order of the source.
\<close>

definition filterSection ::
  "(string, ParsedDocument) alist \<Rightarrow> SearchOptions \<Rightarrow> lunr_result list \<Rightarrow> lunr_result list" where
  "filterSection ds options results =
     (case section_filter options of
        None \<Rightarrow> results
      | Some s \<Rightarrow>
          filter (\<lambda>result. case DAList.lookup ds (ref result) of
                             None \<Rightarrow> False
                           | Some doc \<Rightarrow> doc_section doc = s) results)"

definition filterScore :: "SearchConfig \<Rightarrow> lunr_result list \<Rightarrow> lunr_result list" where
  "filterScore cfg results = filter (\<lambda>result. score result \<ge> minScore cfg) results"

text \<open>
  The \<open>map\<close> that builds the results; it throws at the first match whose document is
  not in the store. \<open>clock (Suc i)\<close> is the reading of \<open>Date.now()\<close> for the match
  at position \<open>i\<close>, \<open>n_total\<close> the length of the array being mapped.
\<close>

fun buildResults ::
  "SearchConfig \<Rightarrow> (nat \<Rightarrow> int) \<Rightarrow> (string, ParsedDocument) alist \<Rightarrow> string \<Rightarrow> SearchOptions
     \<Rightarrow> nat \<Rightarrow> nat \<Rightarrow> lunr_result list \<Rightarrow> KlipperError + SearchResult list" where
  "buildResults cfg clock ds query options n_total i [] = Inr []"
| "buildResults cfg clock ds query options n_total i (result # rest) =
     (case DAList.lookup ds (ref result) of
        None \<Rightarrow> Inl (SearchError (''Document not found: '' @ ref result) ''SearchEngine.search'')
      | Some doc \<Rightarrow>
          (case buildResults cfg clock ds query options n_total (Suc i) rest of
             Inl e \<Rightarrow> Inl e
           | Inr out \<Rightarrow>
               Inr (\<lparr>res_document = doc,
                     res_score = score result,
                     res_snippet = generateSnippet cfg (doc_content doc) query,
                     res_highlights = extractHighlights result query,
                     res_metadata =
                       \<lparr>meta_query = query,
                        meta_searchTime = clock (Suc i) - clock 0,
                        meta_totalResults = n_total,
                        meta_filters =
                          (case section_filter options of
                             None \<Rightarrow> None
                           | Some s \<Rightarrow> Some \<lparr>filter_section = Some s\<rparr>)\<rparr>\<rparr> # out)))"

text \<open>
  \<open>search\<close>. \<open>clock 0\<close> is \<open>startTime\<close>. An error raised inside the \<open>try\<close> block goes
  through \<open>handleError\<close>, which returns a \<open>KlipperError\<close> as it is.
\<close>

definition search ::
  "SearchConfig \<Rightarrow> (nat \<Rightarrow> int) \<Rightarrow> SearchEngine \<Rightarrow> string \<Rightarrow> SearchOptions
     \<Rightarrow> KlipperError + SearchResult list" where
  "search cfg clock eng query options =
     (case index eng of
        None \<Rightarrow> Inl (SearchError ''Search index not initialized'' ''SearchEngine.search'')
      | Some idx \<Rightarrow>
          (let limit = effective_limit cfg options
           in case index_search idx query of
                Inl e \<Rightarrow> Inl (handleError e ''SearchEngine.search'')
              | Inr results0 \<Rightarrow>
                  (let results1 = filterSection (docs eng) options results0;
                       results2 = filterScore cfg results1;
                       results3 = slice0 limit results2
                   in case buildResults cfg clock (docs eng) query options
                             (length results3) 0 results3 of
                        Inl e \<Rightarrow> Inl (handleError (ThrownKlipper e) ''SearchEngine.search'')
                      | Inr out \<Rightarrow> Inr out)))"

definition getDocument :: "SearchEngine \<Rightarrow> string \<Rightarrow> ParsedDocument option" where
  "getDocument eng ident = DAList.lookup (docs eng) ident"

definition getAllDocuments :: "SearchEngine \<Rightarrow> ParsedDocument list" where
  "getAllDocuments eng = map_values (docs eng)"

definition getDocumentsBySection :: "SearchEngine \<Rightarrow> string \<Rightarrow> ParsedDocument list" where
  "getDocumentsBySection eng s = filter (\<lambda>doc. doc_section doc = s) (getAllDocuments eng)"

text \<open>
  \<open>getSections\<close>: a \<open>Set\<close> keeps the first occurrence of each section in insertion
  order; \<open>sort()\<close> without a comparator orders strings by their code units.
\<close>

fun set_add_all :: "string list \<Rightarrow> string list \<Rightarrow> string list" where
  "set_add_all acc [] = acc"
| "set_add_all acc (x # xs) = set_add_all (if x \<in> set acc then acc else acc @ [x]) xs"

definition getSections :: "SearchEngine \<Rightarrow> string list" where
  "getSections eng = sort (set_add_all [] (map doc_section (map_values (docs eng))))"

text \<open>
  \<open>getStats\<close>. \<open>now\<close> is the clock reading used when the index was never built.
\<close>

definition getStats :: "int \<Rightarrow> SearchEngine \<Rightarrow> IndexStats" where
  "getStats now eng =
     (let ds = getAllDocuments eng;
          n_total = foldl (\<lambda>sum doc. num_add sum (wordCount (doc_metadata doc))) 0 ds
      in \<lparr>totalDocuments = length ds,
          totalWords = n_total,
          stats_lastIndexed = (case lastIndexed eng of None \<Rightarrow> now | Some t \<Rightarrow> t),
          stats_sections = getSections eng\<rparr>)"

definition isReady :: "SearchEngine \<Rightarrow> bool" where
  "isReady eng = (index eng \<noteq> None)"


section \<open>The configuration-section extractor (server.ts)\<close>

text \<open>
  \<open>re.exec(s)\<close> for a pattern without anchors or look-behind: the match at the leftmost
  position where the pattern matches, with its index. \<open>m\<close> matches the pattern at the
  start of a suffix of the input.
\<close>

fun exec :: "(string \<Rightarrow> 'm option) \<Rightarrow> string \<Rightarrow> (nat \<times> 'm) option" where
  "exec m [] = map_option (Pair 0) (m [])"
| "exec m (c # cs) =
     (case m (c # cs) of
        Some r \<Rightarrow> Some (0, r)
      | None \<Rightarrow> map_option (\<lambda>(i, r). (Suc i, r)) (exec m cs))"

text \<open>
  The variant inside a pattern: \<open>escapeRegex\<close> makes every character of it stand for
  itself, and the flag \<open>i\<close> compares canonical forms. The result is the rest of the input.
\<close>

fun matchLiteral :: "string \<Rightarrow> string \<Rightarrow> string option" where
  "matchLiteral [] s = Some s"
| "matchLiteral (v # vs) [] = None"
| "matchLiteral (v # vs) (c # cs) = (if canon v = canon c then matchLiteral vs cs else None)"

text \<open>
  The lazy group \<open>([\s\S]*?)\<close> before a look-ahead: the shortest prefix after which the
  look-ahead holds, and the rest.
\<close>

fun lazyUntil :: "(string \<Rightarrow> bool) \<Rightarrow> string \<Rightarrow> (string \<times> string) option" where
  "lazyUntil stop [] = (if stop [] then Some ([], []) else None)"
| "lazyUntil stop (c # cs) =
     (if stop (c # cs) then Some ([], c # cs)
      else map_option (\<lambda>(b, r). (c # b, r)) (lazyUntil stop cs))"

text \<open>Whether the character at position \<open>n\<close> exists and satisfies \<open>p\<close>.\<close>

definition charAt :: "(char \<Rightarrow> bool) \<Rightarrow> nat \<Rightarrow> string \<Rightarrow> bool" where
  "charAt p n s = (case drop n s of [] \<Rightarrow> False | c # cs \<Rightarrow> p c)"

text \<open>
  The bracketed label \<open>\[variant[^\]]*\]\<close> at the start of the input: the rest after
  the closing bracket. A greedy class followed by a character outside it leaves the
  matcher no choice.
\<close>

definition labelAt :: "string \<Rightarrow> string \<Rightarrow> string option" where
  "labelAt variant s =
     (case s of
        [] \<Rightarrow> None
      | c # s1 \<Rightarrow>
          if c = CHR ''[''
          then (case matchLiteral variant s1 of
                  None \<Rightarrow> None
                | Some s2 \<Rightarrow>
                    (case dropWhile (\<lambda>c. c \<noteq> CHR '']'') s2 of
                       [] \<Rightarrow> None
                     | b # s3 \<Rightarrow> Some s3))
          else None)"

text \<open>
  The first group of the header pattern, \<open>(###\s*\[variant[^\]]*\][^\n]*\n)\<close>, at the
  start of the input: the text it matches and the rest.
\<close>

definition headerAt :: "string \<Rightarrow> string \<Rightarrow> (string \<times> string) option" where
  "headerAt variant s =
     (if startsWith s ''###''
      then (case labelAt variant (dropWhile isSpace (drop 3 s)) of
              None \<Rightarrow> None
            | Some s1 \<Rightarrow>
                (case dropWhile (\<lambda>c. c \<noteq> NL) s1 of
                   [] \<Rightarrow> None
                 | n # s2 \<Rightarrow> Some (take (length s - length s2) s, s2)))
      else None)"

text \<open>The look-ahead \<open>(?=\n###\s|\n##\s|$)\<close>.\<close>

definition headerStop :: "string \<Rightarrow> bool" where
  "headerStop s =
     ((startsWith s (NL # ''###'') \<and> charAt isSpace 4 s)
      \<or> (startsWith s (NL # ''##'') \<and> charAt isSpace 3 s)
      \<or> s = [])"

text \<open>The whole header pattern at the start of the input: its two groups.\<close>

definition headerPattern :: "string \<Rightarrow> string \<Rightarrow> (string \<times> string) option" where
  "headerPattern variant s =
     (case headerAt variant s of
        None \<Rightarrow> None
      | Some (header, rest) \<Rightarrow>
          (case lazyUntil headerStop rest of
             None \<Rightarrow> None
           | Some (body, rest') \<Rightarrow> Some (header, body)))"

text \<open>
  \<open>\s*\n\<close>: the greedy \<open>\s*\<close> gives characters back until a line feed follows, so the
  match ends after the last line feed of the run of white space.
\<close>

definition spacesThenNewline :: "string \<Rightarrow> string option" where
  "spacesThenNewline s =
     (let ws = takeWhile isSpace s
      in if NL \<in> set ws
         then Some (drop (length ws - length (takeWhile (\<lambda>c. c \<noteq> NL) (rev ws))) s)
         else None)"

definition isAsciiLetter :: "char \<Rightarrow> bool" where
  "isAsciiLetter c =
     (let n = (of_char c :: nat) in (65 \<le> n \<and> n \<le> 90) \<or> (97 \<le> n \<and> n \<le> 122))"

text \<open>The look-ahead \<open>(?=\n\[[a-z]|\n###|\n##|$)\<close> under the flag \<open>i\<close>.\<close>

definition bracketStop :: "string \<Rightarrow> bool" where
  "bracketStop s =
     ((startsWith s [NL, CHR ''[''] \<and> charAt isAsciiLetter 2 s)
      \<or> startsWith s (NL # ''###'')
      \<or> startsWith s (NL # ''##'')
      \<or> s = [])"

text \<open>
  The bracket pattern \<open>(\[variant[^\]]*\]\s*\n)([\s\S]*?)(?=\n\[[a-z]|\n###|\n##|$)\<close>
  at the start of the input: the whole match.
\<close>

definition bracketPattern :: "string \<Rightarrow> string \<Rightarrow> string option" where
  "bracketPattern variant s =
     (case labelAt variant s of
        None \<Rightarrow> None
      | Some s1 \<Rightarrow>
          (case spacesThenNewline s1 of
             None \<Rightarrow> None
           | Some s2 \<Rightarrow>
               (case lazyUntil bracketStop s2 of
                  None \<Rightarrow> None
                | Some (body, rest) \<Rightarrow> Some (take (length s - length rest) s))))"

text \<open>
  \<open>/\n(###[^\n]+)\n[^#]*$/\<close> at the start of the input: the group, a heading line
  after which no \<open>#\<close> follows.
\<close>

definition sectionHeaderAt :: "string \<Rightarrow> string option" where
  "sectionHeaderAt s =
     (if startsWith s (NL # ''###'')
      then (let line = takeWhile (\<lambda>c. c \<noteq> NL) (drop 4 s)
            in if line = [] then None
               else (case dropWhile (\<lambda>c. c \<noteq> NL) (drop 4 s) of
                       [] \<Rightarrow> None
                     | n # s1 \<Rightarrow> if CHR ''#'' \<in> set s1 then None else Some (''###'' @ line)))
      else None)"

text \<open>\<open>s.replace(/a/g, b)\<close> for single characters.\<close>

definition replaceAll :: "char \<Rightarrow> char \<Rightarrow> string \<Rightarrow> string" where
  "replaceAll a b s = map (\<lambda>c. if c = a then b else c) s"

definition optionVariants :: "string \<Rightarrow> string list" where
  "optionVariants opt =
     [opt, replaceAll CHR ''_'' CHR '' '' opt, replaceAll CHR ''-'' CHR ''_'' opt]"

text \<open>One round of the loop over the variants: \<open>None\<close> when the loop goes on.\<close>

definition tryVariant :: "string \<Rightarrow> string \<Rightarrow> string option" where
  "tryVariant content variant =
     (case (case exec (headerPattern variant) content of
              None \<Rightarrow> None
            | Some (i, header, body) \<Rightarrow>
                if header \<noteq> [] \<and> body \<noteq> [] then Some (header @ body) else None) of
        Some r \<Rightarrow> Some r
      | None \<Rightarrow>
          (case exec (bracketPattern variant) content of
             None \<Rightarrow> None
           | Some (matchIndex, match0) \<Rightarrow>
               (let beforeContent = take matchIndex content;
                    sectionHeader = (case exec sectionHeaderAt beforeContent of
                                       None \<Rightarrow> []
                                     | Some (j, h) \<Rightarrow> h @ [NL, NL])
                in Some (sectionHeader @ match0))))"

fun firstSome :: "('a \<Rightarrow> 'b option) \<Rightarrow> 'a list \<Rightarrow> 'b option" where
  "firstSome f [] = None"
| "firstSome f (x # xs) = (case f x of Some r \<Rightarrow> Some r | None \<Rightarrow> firstSome f xs)"

definition extractConfigSection :: "string \<Rightarrow> string \<Rightarrow> string option" where
  "extractConfigSection content opt = firstSome (tryVariant content) (optionVariants opt)"


section \<open>Derived notions and example data\<close>

text \<open>
  The candidates that remain after the section filter and the minimum-score filter,
  before truncation.
\<close>

definition survivors ::
  "SearchConfig \<Rightarrow> SearchEngine \<Rightarrow> SearchOptions \<Rightarrow> lunr_result list \<Rightarrow> lunr_result list" where
  "survivors cfg eng options results0 = filterScore cfg (filterSection (docs eng) options results0)"

text \<open>\<open>buildIndex\<close> called repeatedly, each call with its clock reading and document map.\<close>

fun buildAll ::
  "lunr \<Rightarrow> SearchEngine \<Rightarrow> (int \<times> (string, ParsedDocument) alist) list \<Rightarrow> SearchEngine" where
  "buildAll lunr_lib eng [] = eng"
| "buildAll lunr_lib eng (c # cs) = buildAll lunr_lib (snd (buildIndex lunr_lib (fst c) eng (snd c))) cs"

text \<open>A document as the test suite's \<open>createMockDocument\<close> makes it, with a given word count.\<close>

definition mk_doc :: "string \<Rightarrow> string \<Rightarrow> string \<Rightarrow> string \<Rightarrow> int \<Rightarrow> ParsedDocument" where
  "mk_doc ident title content sect wc =
     \<lparr>doc_id = ident, doc_title = title, doc_content = content, doc_section = sect,
      doc_subsection = None, doc_filePath = sect @ ''/'' @ ident @ ''.md'',
      doc_lastModified = 0,
      doc_metadata = \<lparr>wordCount = wc, readingTime = 1, difficulty = intermediate,
                      tags = [], relatedDocuments = [], headings = []\<rparr>\<rparr>"

definition example_docs :: "(string, ParsedDocument) alist" where
  "example_docs =
     DAList.update ''bed-leveling''
       (mk_doc ''bed-leveling'' ''Bed Leveling G-Codes'' ''G-code commands for bed leveling'' ''g-codes'' 6)
       (DAList.update ''bed-mesh''
          (mk_doc ''bed-mesh'' ''Bed Mesh Configuration'' ''The bed_mesh section enables bed leveling'' ''config-reference'' 7)
          DAList.empty)"

definition three_docs :: "(string, ParsedDocument) alist" where
  "three_docs =
     DAList.update ''d3'' (mk_doc ''d3'' ''T3'' ''c3'' ''b'' 30)
       (DAList.update ''d2'' (mk_doc ''d2'' ''T2'' ''c2'' ''a'' 20)
          (DAList.update ''d1'' (mk_doc ''d1'' ''T1'' ''c1'' ''a'' 10) DAList.empty))"

text \<open>Two documents whose word counts add up to more than a double can hold exactly.\<close>

definition big_docs :: "(string, ParsedDocument) alist" where
  "big_docs =
     DAList.update ''d2'' (mk_doc ''d2'' ''T2'' ''c2'' ''a'' 1)
       (DAList.update ''d1'' (mk_doc ''d1'' ''T1'' ''c1'' ''a'' 9007199254740992) DAList.empty)"

definition example_results :: "lunr_result list" where
  "example_results =
     [\<lparr>ref = ''bed-mesh'', score = 0.9, matchData_metadata = Some [''bed'']\<rparr>,
      \<lparr>ref = ''bed-leveling'', score = 0.5, matchData_metadata = Some [''bed'']\<rparr>]"

text \<open>
  The error of lunr's query parser for the query \<open>foo:bar\<close>: \<open>foo\<close> is not one of the
  fields of the index.
\<close>

definition query_parse_error :: thrown where
  "query_parse_error =
     ThrownError ''QueryParseError''
       (''unrecognised field 'foo', possible fields: 'title', 'content', 'section', 'tags''
        @ [CHR 0x27])"

text \<open>
  An index over \<open>example_docs\<close> that answers \<open>bed\<close> with both documents, finds nothing
  for other terms, and rejects a query with an unknown field prefix the way lunr's query
  parser does, by throwing a \<open>QueryParseError\<close>.
\<close>

definition example_index :: lunr_Index where
  "example_index =
     \<lparr>index_search = (\<lambda>q. if q = ''foo:bar'' then Inl query_parse_error
                            else if q = ''bed'' then Inr example_results else Inr [])\<rparr>"

definition example_lunr :: lunr where
  "example_lunr cfg ds = Inr example_index"

definition failing_lunr :: lunr where
  "failing_lunr cfg ds = Inl (ThrownError ''TypeError'' ''Cannot read properties of undefined'')"

definition example_engine :: SearchEngine where
  "example_engine = snd (buildIndex example_lunr 1000 newSearchEngine example_docs)"

definition no_options :: SearchOptions where
  "no_options = \<lparr>opt_limit = None, opt_section = None, opt_includeContent = None\<rparr>"

text \<open>A clock that stands still.\<close>

definition frozen_clock :: "nat \<Rightarrow> int" where
  "frozen_clock k = 0"

definition not_initialized :: KlipperError where
  "not_initialized = SearchError ''Search index not initialized'' ''SearchEngine.search''"


text \<open>
  The two notions of the text that the claim about the extractor speaks of, stated on the
  text alone. A marker for a variant: \<open>###\<close>, white space, an opening bracket, the variant
  in any letter case, further characters other than a closing bracket, the closing
  bracket, and the rest of the line with its line feed.
\<close>

definition isMarker :: "string \<Rightarrow> string \<Rightarrow> bool" where
  "isMarker variant h =
     (\<exists>ws lbl lab line.
        h = ''###'' @ ws @ CHR ''['' # lbl @ lab @ CHR '']'' # line @ [NL]
        \<and> list_all isSpace ws \<and> map canon lbl = map canon variant
        \<and> CHR '']'' \<notin> set lab \<and> NL \<notin> set line)"

text \<open>
  A terminator: a line feed followed by \<open>###\<close> or \<open>##\<close> and a white-space character.
\<close>

definition isTerminator :: "string \<Rightarrow> bool" where
  "isTerminator s =
     (\<exists>c t. isSpace c \<and> (s = NL # ''###'' @ c # t \<or> s = NL # ''##'' @ c # t))"

text \<open>A marker line directly followed by another heading.\<close>

definition adjacent_text :: string where
  "adjacent_text = ''### [bed_mesh]'' @ [NL] @ ''### [extruder]'' @ [NL] @ ''bar''"

text \<open>The example of the specification, and a variant with a level-1 heading.\<close>

definition bed_mesh_text :: string where
  "bed_mesh_text = ''### [bed_mesh]'' @ [NL] @ ''foo'' @ [NL] @ ''### [extruder]'' @ [NL] @ ''bar''"

definition level1_text :: string where
  "level1_text = ''### [bed_mesh]'' @ [NL] @ ''foo'' @ [NL] @ ''# Top'' @ [NL] @ ''bar''"


section \<open>Lemmas about the engine\<close>

lemma buildResults_total:
  "\<forall>r\<in>set rs. DAList.lookup ds (ref r) \<noteq> None \<Longrightarrow>
     \<exists>out. buildResults cfg clock ds q opts tot i rs = Inr out"
proof (induction rs arbitrary: i)
  case Nil
  show ?case by simp
next
  case (Cons r rs)
  from Cons.prems obtain d where d: "DAList.lookup ds (ref r) = Some d" by auto
  from Cons.prems have "\<forall>r\<in>set rs. DAList.lookup ds (ref r) \<noteq> None" by simp
  from Cons.IH [OF this] obtain out
    where "buildResults cfg clock ds q opts tot (Suc i) rs = Inr out" by blast
  with d show ?case by simp
qed

lemma buildResults_props:
  "buildResults cfg clock ds q opts tot i rs = Inr out \<Longrightarrow>
     length out = length rs \<and>
     map res_score out = map score rs \<and>
     (\<forall>r\<in>set out. meta_totalResults (res_metadata r) = tot) \<and>
     map (\<lambda>r. Some (res_document r)) out = map (\<lambda>r. DAList.lookup ds (ref r)) rs"
  by (induction rs arbitrary: i out) (auto split: option.splits sum.splits)

lemma buildResults_known:
  "buildResults cfg clock ds q opts tot i rs = Inr out \<Longrightarrow>
     \<forall>r\<in>set rs. DAList.lookup ds (ref r) \<noteq> None"
  by (induction rs arbitrary: i out) (auto split: option.splits sum.splits)

lemma buildResults_Inl:
  "buildResults cfg clock ds q opts tot i rs = Inl e \<Longrightarrow>
     \<exists>r\<in>set rs. DAList.lookup ds (ref r) = None
       \<and> e = SearchError (''Document not found: '' @ ref r) ''SearchEngine.search''"
  by (induction rs arbitrary: i) (auto split: option.splits sum.splits)

lemma search_unfold:
  assumes "index eng = Some idx" and "index_search idx query = Inr results0"
  shows "search cfg clock eng query options =
           (case buildResults cfg clock (docs eng) query options
                   (length (slice0 (effective_limit cfg options) (survivors cfg eng options results0)))
                   0 (slice0 (effective_limit cfg options) (survivors cfg eng options results0)) of
              Inl e \<Rightarrow> Inl e
            | Inr out \<Rightarrow> Inr out)"
  using assms by (simp add: search_def survivors_def Let_def split: sum.splits)

lemma search_throws:
  assumes "index eng = Some idx" and "index_search idx query = Inl e"
  shows "search cfg clock eng query options = Inl (handleError e ''SearchEngine.search'')"
  using assms by (simp add: search_def Let_def)

lemma search_not_ready:
  "index eng = None \<Longrightarrow> search cfg clock eng query options = Inl not_initialized"
  by (simp add: search_def not_initialized_def)

lemma survivors_is_filter: "\<exists>P. survivors cfg eng options rs = filter P rs"
proof (cases "section_filter options")
  case None
  then have "survivors cfg eng options rs = filter (\<lambda>r. score r \<ge> minScore cfg) rs"
    by (simp add: survivors_def filterScore_def filterSection_def)
  then show ?thesis by blast
next
  case (Some s)
  then show ?thesis
    by (auto simp: survivors_def filterScore_def filterSection_def)
qed

lemma set_survivors: "set (survivors cfg eng options rs) \<subseteq> set rs"
proof -
  obtain P where "survivors cfg eng options rs = filter P rs"
    using survivors_is_filter by blast
  then show ?thesis by simp
qed

lemma set_slice0: "set (slice0 n xs) \<subseteq> set xs"
  by (auto simp: slice0_def dest: in_set_takeD)

lemma search_returns:
  assumes idx: "index eng = Some idx"
    and res: "index_search idx query = Inr results0"
    and known: "\<forall>r\<in>set results0. DAList.lookup (docs eng) (ref r) \<noteq> None"
  shows "\<exists>out. search cfg clock eng query options = Inr out \<and>
           length out = length (slice0 (effective_limit cfg options) (survivors cfg eng options results0)) \<and>
           map res_score out =
             map score (slice0 (effective_limit cfg options) (survivors cfg eng options results0)) \<and>
           (\<forall>r\<in>set out. meta_totalResults (res_metadata r) = length out) \<and>
           map (\<lambda>r. Some (res_document r)) out =
             map (\<lambda>r. DAList.lookup (docs eng) (ref r))
               (slice0 (effective_limit cfg options) (survivors cfg eng options results0))"
proof -
  let ?R = "slice0 (effective_limit cfg options) (survivors cfg eng options results0)"
  have "set ?R \<subseteq> set results0"
    using set_slice0 set_survivors by (rule subset_trans)
  with known have "\<forall>r\<in>set ?R. DAList.lookup (docs eng) (ref r) \<noteq> None" by blast
  from buildResults_total [OF this] obtain out
    where out: "buildResults cfg clock (docs eng) query options (length ?R) 0 ?R = Inr out"
    by blast
  have "search cfg clock eng query options = Inr out"
    using search_unfold [OF idx res, of cfg clock options] out by simp
  moreover note buildResults_props [OF out]
  ultimately show ?thesis by simp
qed

lemma search_Inr_props:
  assumes "search cfg clock eng query options = Inr out"
  shows "\<exists>idx results0. index eng = Some idx \<and> index_search idx query = Inr results0 \<and>
           length out = length (slice0 (effective_limit cfg options) (survivors cfg eng options results0)) \<and>
           (\<forall>r\<in>set out. meta_totalResults (res_metadata r) = length out)"
proof -
  from assms obtain idx where idx: "index eng = Some idx"
    by (cases "index eng") (auto simp: search_def)
  from assms idx obtain results0 where res: "index_search idx query = Inr results0"
    by (cases "index_search idx query") (auto simp: search_def Let_def)
  let ?R = "slice0 (effective_limit cfg options) (survivors cfg eng options results0)"
  from assms search_unfold [OF idx res, of cfg clock options]
  have out: "buildResults cfg clock (docs eng) query options (length ?R) 0 ?R = Inr out"
    by (auto split: sum.splits)
  from buildResults_props [OF out] idx res show ?thesis by simp
qed

lemma buildIndex_fails:
  assumes "lunr_lib index_config (map to_lunr_doc (map_values documents)) = Inl e"
  shows "buildIndex lunr_lib now eng documents =
           (Inl (handleError e ''SearchEngine.buildIndex''), eng\<lparr>docs := documents\<rparr>)"
  using assms by (simp add: buildIndex_def Let_def)

lemma num_add_exact: "\<bar>a + b\<bar> \<le> 2 ^ 53 \<Longrightarrow> num_add a b = a + b"
  by (simp add: num_add_def roundDouble_def)

lemma foldl_num_add:
  "0 \<le> a \<Longrightarrow> \<forall>d\<in>set ds. 0 \<le> f d \<Longrightarrow> a + sum_list (map f ds) \<le> 2 ^ 53 \<Longrightarrow>
     foldl (\<lambda>sum doc. num_add sum (f doc)) a ds = a + sum_list (map f ds)"
proof (induction ds arbitrary: a)
  case Nil
  then show ?case by simp
next
  case (Cons d ds)
  have nn: "0 \<le> sum_list (map f ds)"
    using Cons.prems(2) by (intro sum_list_nonneg) auto
  from Cons.prems have fd: "0 \<le> f d" by simp
  with Cons.prems nn have "\<bar>a + f d\<bar> \<le> 2 ^ 53" by simp
  then have step: "num_add a (f d) = a + f d" by (rule num_add_exact)
  have "foldl (\<lambda>sum doc. num_add sum (f doc)) (a + f d) ds = (a + f d) + sum_list (map f ds)"
    using Cons.prems fd by (intro Cons.IH) auto
  with step show ?case by (simp add: add.assoc)
qed

lemma set_set_add_all: "set (set_add_all acc xs) = set acc \<union> set xs"
  by (induction xs arbitrary: acc) auto

lemma distinct_set_add_all: "distinct acc \<Longrightarrow> distinct (set_add_all acc xs)"
  by (induction xs arbitrary: acc) auto

lemma example_engine_simps:
  "index example_engine = Some example_index"
  "docs example_engine = example_docs"
  by (simp_all add: example_engine_def buildIndex_def example_lunr_def Let_def)

lemma example_known:
  "\<forall>r\<in>set example_results. DAList.lookup (docs example_engine) (ref r) \<noteq> None"
  by (simp add: example_results_def example_engine_simps example_docs_def DAList.lookup_update)

lemma example_survivors:
  "survivors DEFAULT_CONFIG_search example_engine
     \<lparr>opt_limit = l, opt_section = None, opt_includeContent = None\<rparr> example_results
   = example_results"
  by (simp add: survivors_def filterScore_def filterSection_def section_filter_def
      DEFAULT_CONFIG_search_def example_results_def)


section \<open>Lemmas about the extractor\<close>

lemma lazyUntil_sound:
  "lazyUntil stop s = Some (b, r) \<Longrightarrow>
     s = b @ r \<and> stop r \<and> (\<forall>k<length b. \<not> stop (drop k b @ r))"
proof (induction s arbitrary: b)
  case Nil
  then show ?case by (auto split: if_splits)
next
  case (Cons c cs)
  show ?case
  proof (cases "stop (c # cs)")
    case True
    with Cons.prems show ?thesis by auto
  next
    case False
    with Cons.prems obtain b' where b': "lazyUntil stop cs = Some (b', r)" "b = c # b'"
      by auto
    from Cons.IH [OF b'(1)] have ih: "cs = b' @ r" "stop r" "\<forall>k<length b'. \<not> stop (drop k b' @ r)"
      by auto
    have "\<not> stop (drop k b @ r)" if "k < length b" for k
    proof (cases k)
      case 0
      with False b'(2) ih(1) show ?thesis by simp
    next
      case (Suc j)
      with that b'(2) ih(3) show ?thesis by simp
    qed
    with ih b'(2) show ?thesis by simp
  qed
qed

lemma lazyUntil_total: "stop [] \<Longrightarrow> \<exists>b r. lazyUntil stop s = Some (b, r)"
  by (induction s) auto

lemma lazyUntil_nonempty:
  "lazyUntil stop s = Some (b, r) \<Longrightarrow> \<not> stop s \<Longrightarrow> b \<noteq> []"
  by (cases s) (auto split: if_splits)

lemma exec_sound:
  "exec m s = Some (i, r) \<Longrightarrow>
     i \<le> length s \<and> m (drop i s) = Some r \<and> (\<forall>j<i. m (drop j s) = None)"
proof (induction s arbitrary: i)
  case Nil
  then show ?case by auto
next
  case (Cons c cs)
  show ?case
  proof (cases "m (c # cs)")
    case (Some r')
    with Cons.prems show ?thesis by auto
  next
    case None
    with Cons.prems obtain i' where i': "exec m cs = Some (i', r)" "i = Suc i'"
      by auto
    from Cons.IH [OF i'(1)] have ih: "i' \<le> length cs" "m (drop i' cs) = Some r"
      "\<forall>j<i'. m (drop j cs) = None" by auto
    have "m (drop j (c # cs)) = None" if "j < i" for j
      using that None ih(3) i'(2) by (cases j) auto
    with ih i'(2) show ?thesis by simp
  qed
qed

lemma startsWith_iff: "startsWith s p \<longleftrightarrow> (\<exists>t. s = p @ t)"
  by (induction s p rule: startsWith.induct) auto

lemma headerStop_iff:
  "headerStop s \<longleftrightarrow>
     s = [] \<or> (\<exists>c t. isSpace c \<and> (s = NL # ''###'' @ c # t \<or> s = NL # ''##'' @ c # t))"
proof
  assume "headerStop s"
  then consider "startsWith s (NL # ''###'')" "charAt isSpace 4 s"
    | "startsWith s (NL # ''##'')" "charAt isSpace 3 s"
    | "s = []"
    by (auto simp: headerStop_def)
  then show "s = [] \<or> (\<exists>c t. isSpace c \<and> (s = NL # ''###'' @ c # t \<or> s = NL # ''##'' @ c # t))"
  proof cases
    case 1
    from 1(1) obtain u where u: "s = (NL # ''###'') @ u" by (auto simp: startsWith_iff)
    with 1(2) obtain c t where "u = c # t" "isSpace c"
      by (cases u) (auto simp: charAt_def)
    with u show ?thesis by auto
  next
    case 2
    from 2(1) obtain u where u: "s = (NL # ''##'') @ u" by (auto simp: startsWith_iff)
    with 2(2) obtain c t where "u = c # t" "isSpace c"
      by (cases u) (auto simp: charAt_def)
    with u show ?thesis by auto
  next
    case 3
    then show ?thesis by simp
  qed
next
  assume "s = [] \<or> (\<exists>c t. isSpace c \<and> (s = NL # ''###'' @ c # t \<or> s = NL # ''##'' @ c # t))"
  then show "headerStop s"
    by (auto simp: headerStop_def charAt_def)
qed

lemma headerStop_Nil: "headerStop []"
  by (simp add: headerStop_def)

lemma matchLiteral_sound:
  "matchLiteral v s = Some r \<Longrightarrow> \<exists>v'. s = v' @ r \<and> map canon v' = map canon v"
proof (induction v s rule: matchLiteral.induct)
  case (1 s)
  then show ?case by simp
next
  case (2 v vs)
  then show ?case by simp
next
  case (3 v vs c cs)
  from "3.prems" have eq: "canon v = canon c" and m: "matchLiteral vs cs = Some r"
    by (auto split: if_splits)
  from "3.IH" [OF eq m] obtain v' where "cs = v' @ r" "map canon v' = map canon vs" by blast
  with eq have "c # cs = (c # v') @ r \<and> map canon (c # v') = map canon (v # vs)" by simp
  then show ?case by blast
qed

lemma labelAt_sound:
  assumes "labelAt v s = Some r"
  shows "\<exists>v' lab. s = CHR ''['' # v' @ lab @ CHR '']'' # r
           \<and> map canon v' = map canon v \<and> CHR '']'' \<notin> set lab"
proof -
  from assms obtain s1 where s: "s = CHR ''['' # s1"
    by (auto simp: labelAt_def split: list.splits if_splits)
  from assms s obtain s2 where m: "matchLiteral v s1 = Some s2"
    by (auto simp: labelAt_def split: option.splits)
  from assms s m obtain b where d: "dropWhile (\<lambda>c. c \<noteq> CHR '']'') s2 = b # r"
    by (auto simp: labelAt_def split: list.splits)
  from matchLiteral_sound [OF m] obtain v' where v': "s1 = v' @ s2" "map canon v' = map canon v"
    by blast
  let ?lab = "takeWhile (\<lambda>c. c \<noteq> CHR '']'') s2"
  from d have "s2 = ?lab @ b # r" and "b = CHR '']''"
    by (auto simp: dropWhile_eq_Cons_conv)
  moreover have "CHR '']'' \<notin> set ?lab"
    by (auto dest: set_takeWhileD)
  ultimately show ?thesis using s v' by auto
qed

lemma headerAt_sound:
  assumes "headerAt v s = Some (hdr, rest)"
  shows "s = hdr @ rest
         \<and> (\<exists>ws v' lab line.
               hdr = ''###'' @ ws @ CHR ''['' # v' @ lab @ CHR '']'' # line @ [NL]
               \<and> list_all isSpace ws \<and> map canon v' = map canon v
               \<and> CHR '']'' \<notin> set lab \<and> NL \<notin> set line)"
proof -
  from assms have sw: "startsWith s ''###''"
    by (auto simp: headerAt_def split: if_splits)
  then obtain s0 where s0: "s = ''###'' @ s0"
    by (auto simp: startsWith_iff)
  let ?ws = "takeWhile isSpace s0"
  from assms sw s0 obtain s1 where l: "labelAt v (dropWhile isSpace s0) = Some s1"
    by (auto simp: headerAt_def split: option.splits)
  from assms sw s0 l obtain n where d: "dropWhile (\<lambda>c. c \<noteq> NL) s1 = n # rest"
    and h: "hdr = take (length s - length rest) s"
    by (auto simp: headerAt_def split: list.splits)
  from labelAt_sound [OF l] obtain v' lab where
    lab: "dropWhile isSpace s0 = CHR ''['' # v' @ lab @ CHR '']'' # s1"
      "map canon v' = map canon v" "CHR '']'' \<notin> set lab"
    by blast
  let ?line = "takeWhile (\<lambda>c. c \<noteq> NL) s1"
  from d have s1: "s1 = ?line @ NL # rest"
    by (auto simp: dropWhile_eq_Cons_conv)
  have line: "NL \<notin> set ?line"
    by (auto dest: set_takeWhileD)
  have "s0 = ?ws @ dropWhile isSpace s0" by simp
  with lab(1) s1 have "s0 = ?ws @ CHR ''['' # v' @ lab @ CHR '']'' # ?line @ NL # rest"
    by metis
  with s0 have full: "s = (''###'' @ ?ws @ CHR ''['' # v' @ lab @ CHR '']'' # ?line @ [NL]) @ rest"
    by simp
  then have "take (length s - length rest) s
               = ''###'' @ ?ws @ CHR ''['' # v' @ lab @ CHR '']'' # ?line @ [NL]"
    by (metis append_eq_conv_conj diff_add_inverse2 length_append)
  with h have hdr: "hdr = ''###'' @ ?ws @ CHR ''['' # v' @ lab @ CHR '']'' # ?line @ [NL]"
    by simp
  have ws: "list_all isSpace ?ws"
    by (auto simp: list_all_iff dest: set_takeWhileD)
  from full hdr ws lab(2,3) line show ?thesis by blast
qed

lemma exec_headerPattern:
  "exec (headerAt v) s = Some (i, hdr, after) \<Longrightarrow>
   lazyUntil headerStop after = Some (body, rest) \<Longrightarrow>
     exec (headerPattern v) s = Some (i, hdr, body)"
  by (induction s arbitrary: i) (auto simp: headerPattern_def split: option.splits)

lemma firstSome_skip:
  "\<forall>x\<in>set xs. f x = None \<Longrightarrow> firstSome f (xs @ y # ys) = (case f y of Some r \<Rightarrow> Some r | None \<Rightarrow> firstSome f ys)"
  by (induction xs) auto


lemma headerAt_marker:
  "headerAt v s = Some (h, r) \<Longrightarrow> s = h @ r \<and> isMarker v h"
  using headerAt_sound [of v s h r] by (simp add: isMarker_def)

lemma headerStop_terminator: "headerStop s \<longleftrightarrow> s = [] \<or> isTerminator s"
  by (simp add: headerStop_iff isTerminator_def)

lemma exec_complete:
  "i \<le> length s \<Longrightarrow> m (drop i s) = Some r \<Longrightarrow> \<forall>j<i. m (drop j s) = None \<Longrightarrow>
     exec m s = Some (i, r)"
proof (induction s arbitrary: i)
  case Nil
  then show ?case by simp
next
  case (Cons c cs)
  show ?case
  proof (cases i)
    case 0
    with Cons.prems show ?thesis by simp
  next
    case (Suc k)
    with Cons.prems have first: "m (c # cs) = None"
      by (metis drop0 zero_less_Suc)
    from Suc Cons.prems have "k \<le> length cs" "m (drop k cs) = Some r"
      by simp_all
    moreover have "\<forall>j<k. m (drop j cs) = None"
    proof (intro allI impI)
      fix j assume "j < k"
      with Suc have "Suc j < i" by simp
      with Cons.prems(3) have "m (drop (Suc j) (c # cs)) = None" by blast
      then show "m (drop j cs) = None" by simp
    qed
    ultimately have "exec m cs = Some (k, r)" by (rule Cons.IH)
    with first Suc show ?thesis by simp
  qed
qed

lemma dropWhile_until:
  "\<forall>x\<in>set xs. P x \<Longrightarrow> \<not> P y \<Longrightarrow> dropWhile P (xs @ y # ys) = y # ys"
  by (induction xs) auto

lemma matchLiteral_complete:
  "map canon v' = map canon v \<Longrightarrow> matchLiteral v (v' @ r) = Some r"
proof (induction v arbitrary: v')
  case Nil
  then show ?case by simp
next
  case (Cons a vs)
  then obtain c cs where v': "v' = c # cs" "canon c = canon a" "map canon cs = map canon vs"
    by (cases v') auto
  from Cons.IH [OF v'(3)] v'(1,2) show ?case by simp
qed

lemma labelAt_complete:
  assumes "map canon v' = map canon v" and "CHR '']'' \<notin> set lab"
  shows "labelAt v (CHR ''['' # v' @ lab @ CHR '']'' # r) = Some r"
proof -
  have m: "matchLiteral v (v' @ lab @ CHR '']'' # r) = Some (lab @ CHR '']'' # r)"
    using assms(1) by (rule matchLiteral_complete)
  have d: "dropWhile (\<lambda>c. c \<noteq> CHR '']'') (lab @ CHR '']'' # r) = CHR '']'' # r"
    using assms(2) by (intro dropWhile_until) auto
  show ?thesis by (simp add: labelAt_def m d)
qed

lemma headerAt_eq:
  "startsWith s ''###'' \<Longrightarrow> labelAt v (dropWhile isSpace (drop 3 s)) = Some s1 \<Longrightarrow>
   dropWhile (\<lambda>c. c \<noteq> NL) s1 = n # s2 \<Longrightarrow>
     headerAt v s = Some (take (length s - length s2) s, s2)"
  by (simp add: headerAt_def)

lemma headerAt_complete:
  assumes "isMarker v h"
  shows "headerAt v (h @ a) = Some (h, a)"
proof -
  from assms obtain ws lbl lab line where
    h: "h = ''###'' @ ws @ CHR ''['' # lbl @ lab @ CHR '']'' # line @ [NL]"
    and ws: "list_all isSpace ws"
    and lbl: "map canon lbl = map canon v"
    and lab: "CHR '']'' \<notin> set lab"
    and line: "NL \<notin> set line"
    by (auto simp: isMarker_def)
  have sw: "startsWith (h @ a) ''###''"
    by (simp add: h)
  have sp: "dropWhile isSpace (ws @ CHR ''['' # X) = CHR ''['' # X" for X
    using ws by (intro dropWhile_until) (auto simp: list_all_iff isSpace_def)
  have la: "labelAt v (dropWhile isSpace (drop 3 (h @ a))) = Some (line @ NL # a)"
    using labelAt_complete [OF lbl lab, of "line @ NL # a"] by (simp add: h sp)
  have dl: "dropWhile (\<lambda>c. c \<noteq> NL) (line @ NL # a) = NL # a"
    using line by (intro dropWhile_until) auto
  from headerAt_eq [OF sw la dl] show ?thesis by simp
qed


section \<open>Claims\<close>

text \<open>
  C4. For every query and options, \<open>search\<close> before any successful \<open>buildIndex\<close> call
  fails with the search error ``Search index not initialized'' and returns no result
  sequence. The engine starts as \<open>newSearchEngine\<close>; any number of \<open>buildIndex\<close> calls
  in which lunr threw may have happened since.
\<close>

theorem search_before_build_not_ready:
  assumes "\<forall>c\<in>set calls. isl (lunr_lib index_config (map to_lunr_doc (map_values (snd c))))"
  shows "search cfg clock (buildAll lunr_lib newSearchEngine calls) query options
           = Inl not_initialized
         \<and> err_type not_initialized = SEARCH
         \<and> err_message not_initialized = ''Search index not initialized''"
proof -
  have "index eng = None \<Longrightarrow> index (buildAll lunr_lib eng calls) = None" for eng
    using assms
  proof (induction calls arbitrary: eng)
    case Nil
    then show ?case by simp
  next
    case (Cons c cs)
    from Cons.prems obtain e
      where "lunr_lib index_config (map to_lunr_doc (map_values (snd c))) = Inl e"
      by (auto simp: isl_def)
    then have "index (snd (buildIndex lunr_lib (fst c) eng (snd c))) = None"
      using Cons.prems(1) by (simp add: buildIndex_fails)
    moreover from Cons.prems
    have "\<forall>c\<in>set cs. isl (lunr_lib index_config (map to_lunr_doc (map_values (snd c))))"
      by simp
    ultimately show ?case using Cons.IH by simp
  qed
  then have "index (buildAll lunr_lib newSearchEngine calls) = None"
    by (simp add: newSearchEngine_def)
  then show ?thesis
    by (simp add: search_not_ready) (simp add: not_initialized_def SearchError_def)
qed

theorem search_before_build_not_ready_witness:
  "search DEFAULT_CONFIG_search frozen_clock
     (buildAll failing_lunr newSearchEngine [(1000, example_docs), (2000, three_docs)])
     ''extruder'' no_options = Inl not_initialized"
  using search_before_build_not_ready
    [of "[(1000, example_docs), (2000, three_docs)]" failing_lunr DEFAULT_CONFIG_search
        frozen_clock "''extruder''" no_options]
  by (simp add: failing_lunr_def)

text \<open>
  C3 (as stated, refuted). The index handle survives a failed build, but the prior index
  does not stay queryable as before. On the example engine the query \<open>bed\<close> returns two
  results; after a build of three other documents in which lunr throws, the same query
  on the same index fails: the document of the first match is no longer in the store.
\<close>

theorem buildIndex_fault_search_counterexample:
  "index (snd (buildIndex failing_lunr 2000 example_engine three_docs)) = Some example_index
   \<and> \<not> isl (search DEFAULT_CONFIG_search frozen_clock example_engine ''bed'' no_options)
   \<and> length (projr (search DEFAULT_CONFIG_search frozen_clock example_engine ''bed'' no_options))
       = 2
   \<and> search DEFAULT_CONFIG_search frozen_clock
        (snd (buildIndex failing_lunr 2000 example_engine three_docs)) ''bed'' no_options
       = Inl (SearchError ''Document not found: bed-mesh'' ''SearchEngine.search'')"
proof -
  have E: "snd (buildIndex failing_lunr 2000 example_engine three_docs)
             = example_engine\<lparr>docs := three_docs\<rparr>"
    by (simp add: buildIndex_fails failing_lunr_def)
  have res: "index_search example_index ''bed'' = Inr example_results"
    by (simp add: example_index_def)
  have el: "effective_limit DEFAULT_CONFIG_search no_options = 10"
    by (simp add: effective_limit_def no_options_def DEFAULT_CONFIG_search_def)
  have sv: "survivors DEFAULT_CONFIG_search example_engine no_options example_results
              = example_results"
    by (simp add: no_options_def example_survivors)
  have sl: "slice0 10 example_results = example_results"
    by (simp add: slice0_def example_results_def)
  from search_returns [OF example_engine_simps(1) res example_known,
      of DEFAULT_CONFIG_search frozen_clock no_options]
  obtain out where
    "search DEFAULT_CONFIG_search frozen_clock example_engine ''bed'' no_options = Inr out"
    "length out = length example_results"
    unfolding el sv sl by blast
  then have before:
    "\<not> isl (search DEFAULT_CONFIG_search frozen_clock example_engine ''bed'' no_options)"
    "length (projr (search DEFAULT_CONFIG_search frozen_clock example_engine ''bed'' no_options))
       = 2"
    by (simp_all add: example_results_def)
  have idx': "index (example_engine\<lparr>docs := three_docs\<rparr>) = Some example_index"
    by (simp add: example_engine_simps)
  have sv': "survivors DEFAULT_CONFIG_search (example_engine\<lparr>docs := three_docs\<rparr>) no_options
               example_results = example_results"
    by (simp add: survivors_def filterScore_def filterSection_def section_filter_def
        no_options_def DEFAULT_CONFIG_search_def example_results_def)
  have gone: "DAList.lookup three_docs ''bed-mesh'' = None"
    by (simp add: three_docs_def DAList.lookup_update)
  have br: "buildResults DEFAULT_CONFIG_search frozen_clock three_docs ''bed'' no_options
              (length example_results) 0 example_results
            = Inl (SearchError ''Document not found: bed-mesh'' ''SearchEngine.search'')"
    by (simp add: example_results_def gone)
  have after:
    "search DEFAULT_CONFIG_search frozen_clock (example_engine\<lparr>docs := three_docs\<rparr>) ''bed''
       no_options
     = Inl (SearchError ''Document not found: bed-mesh'' ''SearchEngine.search'')"
    using search_unfold [OF idx' res, of DEFAULT_CONFIG_search frozen_clock no_options]
    by (simp add: el sv' sl br)
  from before after E idx' show ?thesis by simp
qed

text \<open>
  C3 (amended). If lunr throws while \<open>buildIndex\<close> constructs the index, the engine's
  index handle (and with it \<open>isReady\<close> and the time stamp of the last build) keeps its
  prior value, and the caller receives the error made by \<open>handleError\<close>: a \<open>KlipperError\<close>
  is passed on unchanged, any other error keeps its message and, for an \<open>Error\<close>, its name.
  The prior index is still the one that \<open>search\<close> queries, but its matches are resolved
  in the new document store, which has replaced the old one: a search after the failed
  build returns results, with the documents of the new store, exactly when every match
  left after the filters and the truncation refers to a document of the new store, and
  otherwise it fails with the search error ``Document not found''.
\<close>

theorem buildIndex_fault_keeps_index:
  assumes "lunr_lib index_config (map to_lunr_doc (map_values documents)) = Inl e"
  shows "index (snd (buildIndex lunr_lib now eng documents)) = index eng
         \<and> isReady (snd (buildIndex lunr_lib now eng documents)) = isReady eng
         \<and> lastIndexed (snd (buildIndex lunr_lib now eng documents)) = lastIndexed eng
         \<and> fst (buildIndex lunr_lib now eng documents)
             = Inl (handleError e ''SearchEngine.buildIndex'')
         \<and> err_message (handleError e ''SearchEngine.buildIndex'') = thrown_message e
         \<and> (case e of
               ThrownKlipper k \<Rightarrow> handleError e ''SearchEngine.buildIndex'' = k
             | ThrownError name msg \<Rightarrow>
                 err_details (handleError e ''SearchEngine.buildIndex'')
                   = Some [(''originalError'', name)]
             | ThrownOther msg \<Rightarrow> True)
         \<and> (\<forall>idx results0.
               index eng = Some idx \<and> index_search idx query = Inr results0
               \<and> (\<forall>r\<in>set (slice0 (effective_limit cfg options)
                               (survivors cfg (eng\<lparr>docs := documents\<rparr>) options results0)).
                     DAList.lookup documents (ref r) \<noteq> None)
               \<longrightarrow> (\<exists>out. search cfg clock (snd (buildIndex lunr_lib now eng documents))
                             query options = Inr out
                          \<and> map res_score out
                              = map score
                                  (slice0 (effective_limit cfg options)
                                     (survivors cfg (eng\<lparr>docs := documents\<rparr>) options results0))
                          \<and> map (\<lambda>r. Some (res_document r)) out
                              = map (\<lambda>r. DAList.lookup documents (ref r))
                                  (slice0 (effective_limit cfg options)
                                     (survivors cfg (eng\<lparr>docs := documents\<rparr>) options results0))))
         \<and> (\<forall>idx results0.
               index eng = Some idx \<and> index_search idx query = Inr results0
               \<and> \<not> (\<forall>r\<in>set (slice0 (effective_limit cfg options)
                                 (survivors cfg (eng\<lparr>docs := documents\<rparr>) options results0)).
                       DAList.lookup documents (ref r) \<noteq> None)
               \<longrightarrow> (\<exists>r\<in>set (slice0 (effective_limit cfg options)
                                (survivors cfg (eng\<lparr>docs := documents\<rparr>) options results0)).
                      DAList.lookup documents (ref r) = None
                      \<and> search cfg clock (snd (buildIndex lunr_lib now eng documents))
                            query options
                          = Inl (SearchError (''Document not found: '' @ ref r)
                                   ''SearchEngine.search'')))"
proof -
  let ?E = "eng\<lparr>docs := documents\<rparr>"
  have E: "snd (buildIndex lunr_lib now eng documents) = ?E"
    using assms by (simp add: buildIndex_fails)
  have basic: "index ?E = index eng" "isReady ?E = isReady eng" "lastIndexed ?E = lastIndexed eng"
    "fst (buildIndex lunr_lib now eng documents) = Inl (handleError e ''SearchEngine.buildIndex'')"
    using assms by (simp_all add: buildIndex_fails isReady_def)
  have msg: "err_message (handleError e ''SearchEngine.buildIndex'') = thrown_message e"
    by (cases e) simp_all
  have cause: "case e of
               ThrownKlipper k \<Rightarrow> handleError e ''SearchEngine.buildIndex'' = k
             | ThrownError name msg \<Rightarrow>
                 err_details (handleError e ''SearchEngine.buildIndex'')
                   = Some [(''originalError'', name)]
             | ThrownOther msg \<Rightarrow> True"
    by (cases e) simp_all
  have ok: "\<exists>out. search cfg clock ?E query options = Inr out
              \<and> map res_score out
                  = map score (slice0 (effective_limit cfg options) (survivors cfg ?E options results0))
              \<and> map (\<lambda>r. Some (res_document r)) out
                  = map (\<lambda>r. DAList.lookup documents (ref r))
                      (slice0 (effective_limit cfg options) (survivors cfg ?E options results0))"
    if idx: "index eng = Some idx" and res: "index_search idx query = Inr results0"
      and known: "\<forall>r\<in>set (slice0 (effective_limit cfg options) (survivors cfg ?E options results0)).
                    DAList.lookup documents (ref r) \<noteq> None"
    for idx results0
  proof -
    let ?R = "slice0 (effective_limit cfg options) (survivors cfg ?E options results0)"
    from idx have idx': "index ?E = Some idx" by simp
    from known have "\<forall>r\<in>set ?R. DAList.lookup (docs ?E) (ref r) \<noteq> None" by simp
    from buildResults_total [OF this] obtain out
      where out: "buildResults cfg clock (docs ?E) query options (length ?R) 0 ?R = Inr out"
      by blast
    have "search cfg clock ?E query options = Inr out"
      using search_unfold [OF idx' res, of cfg clock options] out by simp
    moreover from buildResults_props [OF out]
    have "map res_score out = map score ?R"
      "map (\<lambda>r. Some (res_document r)) out = map (\<lambda>r. DAList.lookup documents (ref r)) ?R"
      by simp_all
    ultimately show ?thesis by blast
  qed
  have bad: "\<exists>r\<in>set (slice0 (effective_limit cfg options) (survivors cfg ?E options results0)).
               DAList.lookup documents (ref r) = None
               \<and> search cfg clock ?E query options
                   = Inl (SearchError (''Document not found: '' @ ref r) ''SearchEngine.search'')"
    if idx: "index eng = Some idx" and res: "index_search idx query = Inr results0"
      and unknown: "\<not> (\<forall>r\<in>set (slice0 (effective_limit cfg options)
                                   (survivors cfg ?E options results0)).
                        DAList.lookup documents (ref r) \<noteq> None)"
    for idx results0
  proof -
    let ?R = "slice0 (effective_limit cfg options) (survivors cfg ?E options results0)"
    from idx have idx': "index ?E = Some idx" by simp
    show ?thesis
    proof (cases "buildResults cfg clock (docs ?E) query options (length ?R) 0 ?R")
      case (Inl err)
      from buildResults_Inl [OF Inl] obtain r where
        r: "r \<in> set ?R" "DAList.lookup (docs ?E) (ref r) = None"
           "err = SearchError (''Document not found: '' @ ref r) ''SearchEngine.search''"
        by blast
      have "search cfg clock ?E query options = Inl err"
        using search_unfold [OF idx' res, of cfg clock options] Inl by simp
      with r show ?thesis by auto
    next
      case (Inr out)
      from buildResults_known [OF Inr] unknown show ?thesis by simp
    qed
  qed
  show ?thesis
    unfolding E
    apply (intro conjI allI impI)
           apply (rule basic(1))
          apply (rule basic(2))
         apply (rule basic(3))
        apply (rule basic(4))
       apply (rule msg)
      apply (rule cause)
     apply (elim conjE, rule ok, assumption+)
    apply (elim conjE, rule bad, assumption+)
    done
qed

theorem buildIndex_fault_keeps_index_witness:
  "index (snd (buildIndex failing_lunr 2000 example_engine example_docs)) = Some example_index
   \<and> fst (buildIndex failing_lunr 2000 example_engine example_docs)
       = Inl \<lparr>err_name = ''KlipperError'',
              err_message = ''Cannot read properties of undefined'',
              err_type = SYSTEM, err_context = ''SearchEngine.buildIndex'',
              err_details = Some [(''originalError'', ''TypeError'')]\<rparr>
   \<and> (\<exists>out. search DEFAULT_CONFIG_search frozen_clock
               (snd (buildIndex failing_lunr 2000 example_engine example_docs)) ''bed'' no_options
             = Inr out
           \<and> map res_score out = [0.9, 0.5])"
proof -
  have fails: "failing_lunr index_config (map to_lunr_doc (map_values example_docs))
                 = Inl (ThrownError ''TypeError'' ''Cannot read properties of undefined'')"
    by (simp add: failing_lunr_def)
  have res: "index_search example_index ''bed'' = Inr example_results"
    by (simp add: example_index_def)
  have el: "effective_limit DEFAULT_CONFIG_search no_options = 10"
    by (simp add: effective_limit_def no_options_def DEFAULT_CONFIG_search_def)
  have sv: "survivors DEFAULT_CONFIG_search (example_engine\<lparr>docs := example_docs\<rparr>) no_options
              example_results = example_results"
    by (simp add: survivors_def filterScore_def filterSection_def section_filter_def
        no_options_def DEFAULT_CONFIG_search_def example_results_def)
  have sl: "slice0 10 example_results = example_results"
    by (simp add: slice0_def example_results_def)
  have known: "\<forall>r\<in>set example_results. DAList.lookup example_docs (ref r) \<noteq> None"
    using example_known by (simp add: example_engine_simps)
  have sc: "map score example_results = [0.9, 0.5]"
    by (simp add: example_results_def)
  note inst = buildIndex_fault_keeps_index
    [where lunr_lib = failing_lunr and documents = example_docs
       and e = "ThrownError ''TypeError'' ''Cannot read properties of undefined''"
       and now = 2000 and eng = example_engine and cfg = DEFAULT_CONFIG_search
       and clock = frozen_clock and query = "''bed''" and options = no_options, OF fails]
  note a1 = inst [THEN conjunct1]
  note a4 = inst [THEN conjunct2, THEN conjunct2, THEN conjunct2, THEN conjunct1]
  note a7 = inst [THEN conjunct2, THEN conjunct2, THEN conjunct2, THEN conjunct2,
      THEN conjunct2, THEN conjunct2, THEN conjunct1]
  have prem: "index example_engine = Some example_index
      \<and> index_search example_index ''bed'' = Inr example_results
      \<and> (\<forall>r\<in>set (slice0 (effective_limit DEFAULT_CONFIG_search no_options)
                      (survivors DEFAULT_CONFIG_search (example_engine\<lparr>docs := example_docs\<rparr>)
                         no_options example_results)).
            DAList.lookup example_docs (ref r) \<noteq> None)"
    unfolding el sv sl using example_engine_simps(1) res known by (intro conjI)
  from a7 [THEN spec, THEN spec, THEN mp, OF prem] obtain out where out:
    "search DEFAULT_CONFIG_search frozen_clock
       (snd (buildIndex failing_lunr 2000 example_engine example_docs)) ''bed'' no_options
     = Inr out"
    "map res_score out
       = map score (slice0 (effective_limit DEFAULT_CONFIG_search no_options)
                      (survivors DEFAULT_CONFIG_search (example_engine\<lparr>docs := example_docs\<rparr>)
                         no_options example_results))"
    by (elim exE conjE)
  from out(2) have "map res_score out = [0.9, 0.5]"
    unfolding el sv sl sc .
  with out(1)
  have srch: "\<exists>out. search DEFAULT_CONFIG_search frozen_clock
               (snd (buildIndex failing_lunr 2000 example_engine example_docs)) ''bed'' no_options
             = Inr out
           \<and> map res_score out = [0.9, 0.5]"
    by (intro exI conjI)
  have i1: "index (snd (buildIndex failing_lunr 2000 example_engine example_docs))
              = Some example_index"
    using a1 by (simp add: example_engine_simps)
  have i4: "fst (buildIndex failing_lunr 2000 example_engine example_docs)
       = Inl \<lparr>err_name = ''KlipperError'',
              err_message = ''Cannot read properties of undefined'',
              err_type = SYSTEM, err_context = ''SearchEngine.buildIndex'',
              err_details = Some [(''originalError'', ''TypeError'')]\<rparr>"
    using a4 by simp
  from i1 i4 srch show ?thesis by (intro conjI)
qed

text \<open>
  C9. \<open>buildIndex\<close> assigns the document store before it calls lunr. If lunr then throws,
  \<open>getDocument\<close>, \<open>getAllDocuments\<close>, \<open>getDocumentsBySection\<close>, \<open>getSections\<close> and
  \<open>getStats\<close> all answer from the new documents, while the index is the prior one.
\<close>

theorem buildIndex_fault_replaces_docs:
  assumes "lunr_lib index_config (map to_lunr_doc (map_values documents)) = Inl e"
  shows "index (snd (buildIndex lunr_lib now eng documents)) = index eng
         \<and> docs (snd (buildIndex lunr_lib now eng documents)) = documents
         \<and> getDocument (snd (buildIndex lunr_lib now eng documents)) ident
             = DAList.lookup documents ident
         \<and> getAllDocuments (snd (buildIndex lunr_lib now eng documents)) = map_values documents
         \<and> getDocumentsBySection (snd (buildIndex lunr_lib now eng documents)) s
             = filter (\<lambda>doc. doc_section doc = s) (map_values documents)
         \<and> getSections (snd (buildIndex lunr_lib now eng documents))
             = sort (set_add_all [] (map doc_section (map_values documents)))
         \<and> totalDocuments (getStats t (snd (buildIndex lunr_lib now eng documents)))
             = length (map_values documents)
         \<and> totalWords (getStats t (snd (buildIndex lunr_lib now eng documents)))
             = foldl (\<lambda>sum doc. num_add sum (wordCount (doc_metadata doc))) 0
                 (map_values documents)
         \<and> stats_sections (getStats t (snd (buildIndex lunr_lib now eng documents)))
             = sort (set_add_all [] (map doc_section (map_values documents)))"
  using assms
  by (simp add: buildIndex_fails getDocument_def getAllDocuments_def getDocumentsBySection_def
      getSections_def getStats_def Let_def)

theorem buildIndex_fault_replaces_docs_witness:
  "index (snd (buildIndex failing_lunr 2000 example_engine three_docs)) = Some example_index
   \<and> getDocument (snd (buildIndex failing_lunr 2000 example_engine three_docs)) ''d1''
       = Some (mk_doc ''d1'' ''T1'' ''c1'' ''a'' 10)
   \<and> getDocument (snd (buildIndex failing_lunr 2000 example_engine three_docs)) ''bed-mesh''
       = None
   \<and> totalDocuments (getStats 0 (snd (buildIndex failing_lunr 2000 example_engine three_docs)))
       = 3"
proof -
  have fails: "failing_lunr index_config (map to_lunr_doc (map_values three_docs))
                 = Inl (ThrownError ''TypeError'' ''Cannot read properties of undefined'')"
    by (simp add: failing_lunr_def)
  have len: "length (map_values three_docs) = 3"
    by (simp add: map_values_def three_docs_def DAList.update.rep_eq DAList.empty.rep_eq)
  have l1: "DAList.lookup three_docs ''d1'' = Some (mk_doc ''d1'' ''T1'' ''c1'' ''a'' 10)"
    by (simp add: three_docs_def DAList.lookup_update)
  have l2: "DAList.lookup three_docs ''bed-mesh'' = None"
    by (simp add: three_docs_def DAList.lookup_update)
  note inst = buildIndex_fault_replaces_docs
    [where lunr_lib = failing_lunr and documents = three_docs
       and e = "ThrownError ''TypeError'' ''Cannot read properties of undefined''"
       and now = 2000 and eng = example_engine and t = 0]
  from inst [where ident = "''d1''"] inst [where ident = "''bed-mesh''"] fails
  show ?thesis by (simp add: len l1 l2 example_engine_simps)
qed

text \<open>
  C10. A limit of 0 does not ask for zero results: \<open>options.limit || maxResults\<close> takes
  the configured default, 10 in \<open>DEFAULT_CONFIG\<close>, so the call behaves as one without a
  limit. On the example index the query \<open>bed\<close> with limit 0 returns both matches.
\<close>

theorem search_limit_zero_falls_back:
  "search cfg clock eng query (options\<lparr>opt_limit := Some 0\<rparr>)
     = search cfg clock eng query (options\<lparr>opt_limit := None\<rparr>)
   \<and> effective_limit cfg (options\<lparr>opt_limit := Some 0\<rparr>) = maxResults cfg
   \<and> maxResults DEFAULT_CONFIG_search = 10
   \<and> length (projr (search DEFAULT_CONFIG_search frozen_clock example_engine ''bed''
                      (no_options\<lparr>opt_limit := Some 0\<rparr>))) = 2"
proof -
  have lim: "effective_limit cfg (options\<lparr>opt_limit := Some 0\<rparr>) = maxResults cfg"
    "effective_limit cfg (options\<lparr>opt_limit := None\<rparr>) = maxResults cfg" for cfg options
    by (simp_all add: effective_limit_def)
  have sec: "section_filter (options\<lparr>opt_limit := l\<rparr>) = section_filter options" for l
    by (simp add: section_filter_def)
  have br: "buildResults cfg clock ds query (options\<lparr>opt_limit := l\<rparr>) n i rs
              = buildResults cfg clock ds query options n i rs" for l ds n i rs
    by (induction rs arbitrary: i) (auto simp: sec split: option.splits sum.splits)
  have same: "search cfg clock eng query (options\<lparr>opt_limit := Some 0\<rparr>)
                = search cfg clock eng query (options\<lparr>opt_limit := None\<rparr>)"
    by (auto simp: search_def lim br filterSection_def sec Let_def
        split: option.splits sum.splits)
  have res: "index_search example_index ''bed'' = Inr example_results"
    by (simp add: example_index_def)
  from search_returns [OF example_engine_simps(1) res example_known,
      of DEFAULT_CONFIG_search frozen_clock "no_options\<lparr>opt_limit := Some 0\<rparr>"]
  obtain out where
    "search DEFAULT_CONFIG_search frozen_clock example_engine ''bed''
       (no_options\<lparr>opt_limit := Some 0\<rparr>) = Inr out"
    "length out = length (slice0 (effective_limit DEFAULT_CONFIG_search
                                   (no_options\<lparr>opt_limit := Some 0\<rparr>))
                           (survivors DEFAULT_CONFIG_search example_engine
                              (no_options\<lparr>opt_limit := Some 0\<rparr>) example_results))"
    by blast
  moreover have "effective_limit DEFAULT_CONFIG_search (no_options\<lparr>opt_limit := Some 0\<rparr>) = 10"
    by (simp add: lim) (simp add: DEFAULT_CONFIG_search_def)
  moreover have "survivors DEFAULT_CONFIG_search example_engine
                   (no_options\<lparr>opt_limit := Some 0\<rparr>) example_results = example_results"
    by (simp add: no_options_def example_survivors)
  moreover have "length (slice0 10 example_results) = 2"
    by (simp add: slice0_def example_results_def)
  ultimately
  have "length (projr (search DEFAULT_CONFIG_search frozen_clock example_engine ''bed''
                      (no_options\<lparr>opt_limit := Some 0\<rparr>))) = 2"
    by simp
  moreover have "maxResults DEFAULT_CONFIG_search = 10"
    by (simp add: DEFAULT_CONFIG_search_def)
  ultimately show ?thesis using same lim by simp
qed

theorem search_limit_zero_falls_back_witness:
  "effective_limit DEFAULT_CONFIG_search (no_options\<lparr>opt_limit := Some 0\<rparr>) = 10
   \<and> length (projr (search DEFAULT_CONFIG_search frozen_clock example_engine ''bed''
                      (no_options\<lparr>opt_limit := Some 0\<rparr>))) = 2"
  using search_limit_zero_falls_back [of DEFAULT_CONFIG_search frozen_clock example_engine
      "''bed''" no_options]
  by metis

text \<open>
  C2 (as stated, refuted). With two candidates surviving both filters and a limit of 1,
  the one result returned carries \<open>totalResults = 1\<close>, not 2.
\<close>

theorem search_totalResults_counterexample:
  "map (meta_totalResults \<circ> res_metadata)
     (projr (search DEFAULT_CONFIG_search frozen_clock example_engine ''bed''
               (no_options\<lparr>opt_limit := Some 1\<rparr>))) = [1]
   \<and> length (survivors DEFAULT_CONFIG_search example_engine
               (no_options\<lparr>opt_limit := Some 1\<rparr>) example_results) = 2
   \<and> index example_engine = Some example_index
   \<and> index_search example_index ''bed'' = Inr example_results"
proof -
  have res: "index_search example_index ''bed'' = Inr example_results"
    by (simp add: example_index_def)
  have el: "effective_limit DEFAULT_CONFIG_search (no_options\<lparr>opt_limit := Some 1\<rparr>) = 1"
    by (simp add: effective_limit_def)
  have sv: "survivors DEFAULT_CONFIG_search example_engine
              (no_options\<lparr>opt_limit := Some 1\<rparr>) example_results = example_results"
    by (simp add: no_options_def example_survivors)
  have sl: "length (slice0 1 example_results) = 1"
    by (simp add: slice0_def example_results_def)
  from search_returns [OF example_engine_simps(1) res example_known,
      of DEFAULT_CONFIG_search frozen_clock "no_options\<lparr>opt_limit := Some 1\<rparr>"]
  obtain out where out:
    "search DEFAULT_CONFIG_search frozen_clock example_engine ''bed''
       (no_options\<lparr>opt_limit := Some 1\<rparr>) = Inr out"
    "length out = 1"
    "\<forall>r\<in>set out. meta_totalResults (res_metadata r) = length out"
    unfolding el sv sl by blast
  from out(2) obtain r where r: "out = [r]"
    by (cases out) auto
  with out(2,3) have "map (meta_totalResults \<circ> res_metadata) out = [1]" by simp
  moreover have "length example_results = 2" by (simp add: example_results_def)
  ultimately show ?thesis using out(1) sv res example_engine_simps(1) by simp
qed

text \<open>
  C2 (amended). Whenever \<open>search\<close> returns, the \<open>totalResults\<close> of every result equals
  the number of results returned: the count after the section filter, the minimum-score
  filter and the truncation to the limit. For a limit that is not negative this is the
  smaller of the limit and the number of candidates that survive the two filters.
\<close>

theorem search_totalResults_counts_returned:
  assumes "search cfg clock eng query options = Inr out"
  shows "(\<forall>r\<in>set out. meta_totalResults (res_metadata r) = length out)
         \<and> (\<exists>idx results0. index eng = Some idx \<and> index_search idx query = Inr results0
              \<and> length out = length (slice0 (effective_limit cfg options)
                                        (survivors cfg eng options results0))
              \<and> (0 \<le> effective_limit cfg options \<longrightarrow>
                   length out = min (nat (effective_limit cfg options))
                                    (length (survivors cfg eng options results0))))"
proof -
  from search_Inr_props [OF assms] obtain idx results0 where
    p: "index eng = Some idx" "index_search idx query = Inr results0"
       "length out = length (slice0 (effective_limit cfg options)
                               (survivors cfg eng options results0))"
       "\<forall>r\<in>set out. meta_totalResults (res_metadata r) = length out"
    by blast
  have "0 \<le> effective_limit cfg options \<Longrightarrow>
          length out = min (nat (effective_limit cfg options))
                           (length (survivors cfg eng options results0))"
    using p(3) by (simp add: slice0_def min.commute)
  with p show ?thesis by blast
qed

theorem search_totalResults_counts_returned_witness:
  "map (meta_totalResults \<circ> res_metadata)
     (projr (search DEFAULT_CONFIG_search frozen_clock example_engine ''bed''
               (no_options\<lparr>opt_limit := Some 1\<rparr>)))
   = replicate
       (length (projr (search DEFAULT_CONFIG_search frozen_clock example_engine ''bed''
                         (no_options\<lparr>opt_limit := Some 1\<rparr>))))
       (length (projr (search DEFAULT_CONFIG_search frozen_clock example_engine ''bed''
                         (no_options\<lparr>opt_limit := Some 1\<rparr>))))"
proof -
  have res: "index_search example_index ''bed'' = Inr example_results"
    by (simp add: example_index_def)
  from search_returns [OF example_engine_simps(1) res example_known,
      of DEFAULT_CONFIG_search frozen_clock "no_options\<lparr>opt_limit := Some 1\<rparr>"]
  obtain out where out:
    "search DEFAULT_CONFIG_search frozen_clock example_engine ''bed''
       (no_options\<lparr>opt_limit := Some 1\<rparr>) = Inr out"
    by blast
  from search_totalResults_counts_returned [OF out]
  have "map (meta_totalResults \<circ> res_metadata) out = map (\<lambda>r. length out) out"
    by simp
  then have "map (meta_totalResults \<circ> res_metadata) out = replicate (length out) (length out)"
    by (simp only: map_replicate_const)
  with out show ?thesis by simp
qed

text \<open>
  C7. For a positive limit \<open>N\<close>, \<open>search\<close> returns at most \<open>N\<close> results: the first \<open>N\<close>
  of the candidates that survive the filters, in the index's order. The index hands its
  matches over ranked by descending score, as lunr does, so every candidate left out
  scores no higher than any result returned. The search succeeds when each match refers
  to a document of the store.
\<close>

theorem search_limit_top_N:
  assumes idx: "index eng = Some idx"
    and res: "index_search idx query = Inr results0"
    and ranked: "sorted_wrt (\<lambda>a b. score a \<ge> score b) results0"
    and known: "\<forall>r\<in>set results0. DAList.lookup (docs eng) (ref r) \<noteq> None"
    and lim: "opt_limit options = Some N"
    and pos: "0 < N"
  shows "\<exists>out. search cfg clock eng query options = Inr out
           \<and> length out \<le> nat N
           \<and> length out = min (nat N) (length (survivors cfg eng options results0))
           \<and> map res_score out = map score (take (nat N) (survivors cfg eng options results0))
           \<and> map (\<lambda>r. Some (res_document r)) out
               = map (\<lambda>r. DAList.lookup (docs eng) (ref r))
                   (take (nat N) (survivors cfg eng options results0))
           \<and> (\<forall>a\<in>set (take (nat N) (survivors cfg eng options results0)).
                \<forall>b\<in>set (drop (nat N) (survivors cfg eng options results0)).
                  score b \<le> score a)"
proof -
  let ?S = "survivors cfg eng options results0"
  have el: "effective_limit cfg options = N"
    using lim pos by (simp add: effective_limit_def)
  have sl: "slice0 N ?S = take (nat N) ?S"
    using pos by (simp add: slice0_def)
  obtain P where P: "?S = filter P results0"
    using survivors_is_filter by blast
  have "sorted_wrt (\<lambda>a b. score a \<ge> score b) ?S"
    unfolding P using ranked by (rule sorted_wrt_filter)
  then have "sorted_wrt (\<lambda>a b. score a \<ge> score b) (take (nat N) ?S @ drop (nat N) ?S)"
    by simp
  then have top: "\<forall>a\<in>set (take (nat N) ?S). \<forall>b\<in>set (drop (nat N) ?S). score b \<le> score a"
    unfolding sorted_wrt_append by blast
  from search_returns [OF idx res known, of cfg clock options]
  obtain out where out:
    "search cfg clock eng query options = Inr out"
    "length out = length (take (nat N) ?S)"
    "map res_score out = map score (take (nat N) ?S)"
    "map (\<lambda>r. Some (res_document r)) out
       = map (\<lambda>r. DAList.lookup (docs eng) (ref r)) (take (nat N) ?S)"
    unfolding el sl by blast
  from out(2) have "length out \<le> nat N"
    and "length out = min (nat N) (length ?S)"
    by (simp_all add: min.commute)
  with out top show ?thesis by blast
qed

theorem search_limit_top_N_witness:
  "\<exists>out. search DEFAULT_CONFIG_search frozen_clock example_engine ''bed''
            (no_options\<lparr>opt_limit := Some 1\<rparr>) = Inr out
         \<and> length out \<le> 1
         \<and> map res_score out = [0.9]"
proof -
  have res: "index_search example_index ''bed'' = Inr example_results"
    by (simp add: example_index_def)
  have ranked: "sorted_wrt (\<lambda>a b. score a \<ge> score b) example_results"
    by (simp add: example_results_def)
  have lim: "opt_limit (no_options\<lparr>opt_limit := Some 1\<rparr>) = Some 1"
    by simp
  have sv: "survivors DEFAULT_CONFIG_search example_engine
              (no_options\<lparr>opt_limit := Some 1\<rparr>) example_results = example_results"
    by (simp add: no_options_def example_survivors)
  have tk: "map score (take (nat 1) example_results) = [0.9]"
    by (simp add: example_results_def)
  from search_limit_top_N [OF example_engine_simps(1) res ranked example_known lim,
      of DEFAULT_CONFIG_search frozen_clock]
  show ?thesis unfolding sv tk by auto
qed

text \<open>
  C1 (as stated, refuted). On a built index the query \<open>foo:bar\<close>, which the index's
  query parser rejects, makes \<open>search\<close> fail: the parser's error comes back wrapped as a
  system error.
\<close>

theorem search_malformed_query_counterexample:
  "search DEFAULT_CONFIG_search frozen_clock example_engine ''foo:bar'' no_options
     = Inl \<lparr>err_name = ''KlipperError'',
            err_message = thrown_message query_parse_error,
            err_type = SYSTEM, err_context = ''SearchEngine.search'',
            err_details = Some [(''originalError'', ''QueryParseError'')]\<rparr>
   \<and> isReady example_engine"
proof -
  have "index_search example_index ''foo:bar'' = Inl query_parse_error"
    by (simp add: example_index_def)
  from search_throws [OF example_engine_simps(1) this, of DEFAULT_CONFIG_search frozen_clock no_options]
  show ?thesis by (simp add: isReady_def example_engine_simps query_parse_error_def)
qed

text \<open>
  C1 (amended). \<open>search\<close> has no query validation of its own. On a built index it returns
  a (possibly empty) result sequence for every query string that the index's own query
  routine accepts, provided each match refers to a document of the store; an empty list
  of matches gives the empty sequence. When the index's query routine throws, \<open>search\<close>
  fails with that error as \<open>handleError\<close> wraps it; there is no separate kind of error
  for a malformed query.
\<close>

theorem search_accepts_what_index_accepts:
  assumes "index eng = Some idx"
  shows "(\<forall>results0. index_search idx query = Inr results0
            \<and> (\<forall>r\<in>set results0. DAList.lookup (docs eng) (ref r) \<noteq> None)
            \<longrightarrow> (\<exists>out. search cfg clock eng query options = Inr out))
         \<and> (index_search idx query = Inr [] \<longrightarrow> search cfg clock eng query options = Inr [])
         \<and> (\<forall>e. index_search idx query = Inl e
            \<longrightarrow> search cfg clock eng query options = Inl (handleError e ''SearchEngine.search''))"
proof -
  have a: "\<exists>out. search cfg clock eng query options = Inr out"
    if "index_search idx query = Inr results0"
      and "\<forall>r\<in>set results0. DAList.lookup (docs eng) (ref r) \<noteq> None" for results0
    using search_returns [OF assms that, of cfg clock options] by blast
  have b: "search cfg clock eng query options = Inr []" if r: "index_search idx query = Inr []"
  proof -
    have "\<forall>r\<in>set []. DAList.lookup (docs eng) (ref r) \<noteq> None" by simp
    from search_returns [OF assms r this, of cfg clock options]
    obtain out where "search cfg clock eng query options = Inr out"
      and "length out = length (slice0 (effective_limit cfg options) (survivors cfg eng options []))"
      by blast
    moreover have "survivors cfg eng options [] = []"
      using set_survivors [of cfg eng options "[]"] by simp
    moreover have "slice0 (effective_limit cfg options) ([] :: lunr_result list) = []"
      by (simp add: slice0_def)
    ultimately show ?thesis by simp
  qed
  have c: "search cfg clock eng query options = Inl (handleError e ''SearchEngine.search'')"
    if "index_search idx query = Inl e" for e
    using search_throws [OF assms that] .
  from a b c show ?thesis by blast
qed

theorem search_accepts_what_index_accepts_witness:
  "(\<exists>out. search DEFAULT_CONFIG_search frozen_clock example_engine ''bed'' no_options = Inr out)
   \<and> search DEFAULT_CONFIG_search frozen_clock example_engine [] no_options = Inr []
   \<and> search DEFAULT_CONFIG_search frozen_clock example_engine ''xyzzy qqq'' no_options = Inr []"
proof -
  have r1: "index_search example_index ''bed'' = Inr example_results"
    and r2: "index_search example_index [] = Inr []"
    and r3: "index_search example_index ''xyzzy qqq'' = Inr []"
    by (simp_all add: example_index_def)
  note inst = search_accepts_what_index_accepts
    [OF example_engine_simps(1), where cfg = DEFAULT_CONFIG_search and clock = frozen_clock
       and options = no_options]
  from inst [where query = "''bed''"] inst [where query = "[]"]
    inst [where query = "''xyzzy qqq''"] r1 r2 r3 example_known
  show ?thesis by simp
qed

text \<open>
  C8 (as stated, refuted). The word counts are added as doubles. For two documents with
  the word counts \<open>2 ^ 53\<close> and 1 the total reported is \<open>2 ^ 53\<close>, one less than their sum.
\<close>

theorem getStats_totalWords_counterexample:
  "totalWords (getStats 0 \<lparr>index = None, docs = big_docs, lastIndexed = None\<rparr>)
     = 9007199254740992
   \<and> sum_list (map (wordCount \<circ> doc_metadata) (map_values big_docs)) = 9007199254740993"
proof -
  have v: "map_values big_docs
             = [mk_doc ''d1'' ''T1'' ''c1'' ''a'' 9007199254740992, mk_doc ''d2'' ''T2'' ''c2'' ''a'' 1]"
    by (simp add: map_values_def big_docs_def DAList.update.rep_eq DAList.empty.rep_eq)
  have a1: "num_add 0 9007199254740992 = 9007199254740992"
    by code_simp
  have a2: "num_add 9007199254740992 1 = 9007199254740992"
    by code_simp
  have "totalWords (getStats 0 \<lparr>index = None, docs = big_docs, lastIndexed = None\<rparr>)
          = num_add (num_add 0 9007199254740992) 1"
    by (simp add: getStats_def getAllDocuments_def Let_def v mk_doc_def)
  then have "totalWords (getStats 0 \<lparr>index = None, docs = big_docs, lastIndexed = None\<rparr>)
          = 9007199254740992"
    by (simp only: a1 a2)
  moreover have "sum_list (map (wordCount \<circ> doc_metadata) (map_values big_docs))
                   = 9007199254740993"
    by (simp add: v mk_doc_def)
  ultimately show ?thesis by blast
qed

text \<open>
  C8 (amended). \<open>getStats\<close> counts the documents of the store and lists the distinct
  section names in ascending order, for every store. When the word counts are integers
  that are not negative and add up to at most \<open>2 ^ 53\<close>, the total it reports is their
  sum. Three documents with word counts 10, 20 and 30 in the sections a, a and b give 3,
  60 and [a, b]; the empty store gives zeros and the empty list.
\<close>

theorem getStats_totals:
  "totalDocuments (getStats now eng) = length (DAList.impl_of (docs eng))
   \<and> totalDocuments (getStats now eng) = card (dom (DAList.lookup (docs eng)))
   \<and> ((\<forall>doc\<in>set (map_values (docs eng)). 0 \<le> wordCount (doc_metadata doc))
        \<and> sum_list (map (\<lambda>doc. wordCount (doc_metadata doc)) (map_values (docs eng))) \<le> 2 ^ 53
      \<longrightarrow> totalWords (getStats now eng)
            = sum_list (map (\<lambda>doc. wordCount (doc_metadata doc)) (map_values (docs eng))))
   \<and> set (stats_sections (getStats now eng)) = doc_section ` set (map_values (docs eng))
   \<and> sorted (stats_sections (getStats now eng))
   \<and> distinct (stats_sections (getStats now eng))
   \<and> getStats now \<lparr>index = None, docs = three_docs, lastIndexed = None\<rparr>
       = \<lparr>totalDocuments = 3, totalWords = 60, stats_lastIndexed = now,
          stats_sections = [''a'', ''b'']\<rparr>
   \<and> getStats now newSearchEngine
       = \<lparr>totalDocuments = 0, totalWords = 0, stats_lastIndexed = now, stats_sections = []\<rparr>"
proof -
  have n1: "totalDocuments (getStats now eng) = length (DAList.impl_of (docs eng))"
    by (simp add: getStats_def getAllDocuments_def map_values_def Let_def)
  have "card (dom (DAList.lookup (docs eng))) = card (set (map fst (DAList.impl_of (docs eng))))"
    by (simp add: DAList.lookup.rep_eq dom_map_of_conv_image_fst)
  also have "\<dots> = length (map fst (DAList.impl_of (docs eng)))"
    by (rule distinct_card) simp
  finally have n2: "totalDocuments (getStats now eng) = card (dom (DAList.lookup (docs eng)))"
    using n1 by simp
  have fold: "totalWords (getStats t en)
                = foldl (\<lambda>sum doc. num_add sum (wordCount (doc_metadata doc))) 0
                    (map_values (docs en))" for t en
    by (simp add: getStats_def getAllDocuments_def Let_def)
  have w: "totalWords (getStats now eng)
             = sum_list (map (\<lambda>doc. wordCount (doc_metadata doc)) (map_values (docs eng)))"
    if "\<forall>doc\<in>set (map_values (docs eng)). 0 \<le> wordCount (doc_metadata doc)"
      and "sum_list (map (\<lambda>doc. wordCount (doc_metadata doc)) (map_values (docs eng))) \<le> 2 ^ 53"
    using foldl_num_add [of 0 "map_values (docs eng)" "\<lambda>doc. wordCount (doc_metadata doc)"] that
    by (simp add: fold)
  have sec: "stats_sections (getStats t en)
               = sort (set_add_all [] (map doc_section (map_values (docs en))))" for t en
    by (simp add: getStats_def getSections_def Let_def)
  have s1: "set (stats_sections (getStats now eng)) = doc_section ` set (map_values (docs eng))"
    by (simp add: sec set_set_add_all)
  have s2: "sorted (stats_sections (getStats now eng))"
    by (simp add: sec)
  have s3: "distinct (stats_sections (getStats now eng))"
    by (simp add: sec distinct_set_add_all)
  have v3: "map_values three_docs
              = [mk_doc ''d1'' ''T1'' ''c1'' ''a'' 10, mk_doc ''d2'' ''T2'' ''c2'' ''a'' 20,
                 mk_doc ''d3'' ''T3'' ''c3'' ''b'' 30]"
    by (simp add: map_values_def three_docs_def DAList.update.rep_eq DAList.empty.rep_eq)
  have srt: "sort [''a'', ''b''] = [''a'', ''b'']"
    by simp
  have add3: "num_add (num_add (num_add 0 10) 20) 30 = 60"
    by (simp add: num_add_exact)
  have e3: "getStats now \<lparr>index = None, docs = three_docs, lastIndexed = None\<rparr>
              = \<lparr>totalDocuments = 3, totalWords = 60, stats_lastIndexed = now,
                 stats_sections = [''a'', ''b'']\<rparr>"
    by (simp add: getStats_def getSections_def getAllDocuments_def Let_def v3 mk_doc_def srt add3)
  have e0: "getStats now newSearchEngine
              = \<lparr>totalDocuments = 0, totalWords = 0, stats_lastIndexed = now, stats_sections = []\<rparr>"
    by (simp add: getStats_def getSections_def getAllDocuments_def Let_def newSearchEngine_def
        map_values_def DAList.empty.rep_eq)
  have w': "(\<forall>doc\<in>set (map_values (docs eng)). 0 \<le> wordCount (doc_metadata doc))
        \<and> sum_list (map (\<lambda>doc. wordCount (doc_metadata doc)) (map_values (docs eng))) \<le> 2 ^ 53
      \<longrightarrow> totalWords (getStats now eng)
            = sum_list (map (\<lambda>doc. wordCount (doc_metadata doc)) (map_values (docs eng)))"
    by (intro impI, elim conjE, rule w)
  show ?thesis
    apply (intro conjI)
           apply (rule n1)
          apply (rule n2)
         apply (rule w')
        apply (rule s1)
       apply (rule s2)
      apply (rule s3)
     apply (rule e3)
    apply (rule e0)
    done
qed

theorem getStats_totals_witness:
  "totalWords (getStats 0 \<lparr>index = None, docs = three_docs, lastIndexed = None\<rparr>) = 60
   \<and> totalDocuments (getStats 0 \<lparr>index = None, docs = three_docs, lastIndexed = None\<rparr>) = 3
   \<and> stats_sections (getStats 0 \<lparr>index = None, docs = three_docs, lastIndexed = None\<rparr>)
       = [''a'', ''b'']
   \<and> getStats 0 newSearchEngine
       = \<lparr>totalDocuments = 0, totalWords = 0, stats_lastIndexed = 0, stats_sections = []\<rparr>"
proof -
  have v3: "map_values three_docs
              = [mk_doc ''d1'' ''T1'' ''c1'' ''a'' 10, mk_doc ''d2'' ''T2'' ''c2'' ''a'' 20,
                 mk_doc ''d3'' ''T3'' ''c3'' ''b'' 30]"
    by (simp add: map_values_def three_docs_def DAList.update.rep_eq DAList.empty.rep_eq)
  have nonneg: "\<forall>doc\<in>set (map_values three_docs). 0 \<le> wordCount (doc_metadata doc)"
    by (simp add: v3 mk_doc_def)
  have total: "sum_list (map (\<lambda>doc. wordCount (doc_metadata doc)) (map_values three_docs)) = 60"
    by (simp add: v3 mk_doc_def)
  note inst = getStats_totals [of 0 "\<lparr>index = None, docs = three_docs, lastIndexed = None\<rparr>"]
  note c3 = inst [THEN conjunct2, THEN conjunct2, THEN conjunct1]
  note c7 = inst [THEN conjunct2, THEN conjunct2, THEN conjunct2, THEN conjunct2,
      THEN conjunct2, THEN conjunct2, THEN conjunct1]
  note c8 = inst [THEN conjunct2, THEN conjunct2, THEN conjunct2, THEN conjunct2,
      THEN conjunct2, THEN conjunct2, THEN conjunct2]
  have hyp: "(\<forall>doc\<in>set (map_values (docs \<lparr>index = None, docs = three_docs, lastIndexed = None\<rparr>)).
                0 \<le> wordCount (doc_metadata doc))
             \<and> sum_list (map (\<lambda>doc. wordCount (doc_metadata doc))
                          (map_values (docs \<lparr>index = None, docs = three_docs, lastIndexed = None\<rparr>)))
                 \<le> 2 ^ 53"
    using nonneg by (simp add: total)
  from c3 [THEN mp, OF hyp]
  have tw: "totalWords (getStats 0 \<lparr>index = None, docs = three_docs, lastIndexed = None\<rparr>) = 60"
    by (simp add: total)
  have td: "totalDocuments (getStats 0 \<lparr>index = None, docs = three_docs, lastIndexed = None\<rparr>) = 3"
    by (simp add: c7)
  have ss: "stats_sections (getStats 0 \<lparr>index = None, docs = three_docs, lastIndexed = None\<rparr>)
              = [''a'', ''b'']"
    by (simp add: c7)
  from tw td ss c8 show ?thesis by (intro conjI)
qed

text \<open>
  C5 (as stated, refuted). After the marker \<open>### [bed_mesh]\<close> and the line \<open>foo\<close> comes
  the level-1 heading \<open># Top\<close>, a heading of higher level than the marker. The block
  returned does not end before it: the whole text comes back.
\<close>

theorem extractConfigSection_level1_counterexample:
  "extractConfigSection level1_text ''bed_mesh'' = Some level1_text
   \<and> Some level1_text \<noteq> Some (''### [bed_mesh]'' @ [NL] @ ''foo'')
   \<and> Some level1_text \<noteq> Some (''### [bed_mesh]'' @ [NL] @ ''foo'' @ [NL])"
  by code_simp

text \<open>
  C5 (amended). The variants of the option name are tried in order: the name as given,
  with underscores as spaces, with hyphens as underscores; pick the first for which a
  pattern gives a result. Let the text hold a marker for it: \<open>###\<close>, optional white space,
  a bracketed label that starts with the variant in any letter case, and the rest of that
  line with its line feed; take the leftmost one. A terminator is a line feed followed by
  \<open>##\<close> or \<open>###\<close> and a white-space character. When the text after the marker line is
  neither empty nor the start of a terminator, the result is the marker line and the text
  after it up to but excluding the first terminator, or up to the end of the document if
  there is none. The line feed that ends the marker line belongs to the marker line: a
  heading on the very next line does not end the block, and a level-1 heading never does.
  For the example of the specification the result is the marker line and \<open>foo\<close>.
\<close>

theorem extractConfigSection_heading_block:
  assumes vs: "optionVariants opt = vs1 @ variant # vs2"
    and earlier: "\<forall>v\<in>set vs1. tryVariant content v = None"
    and whole: "content = pre @ header @ after"
    and marker: "isMarker variant header"
    and leftmost: "\<forall>p h a. content = p @ h @ a \<and> isMarker variant h \<longrightarrow> length pre \<le> length p"
    and nonempty: "after \<noteq> []"
    and noterm: "\<not> isTerminator after"
  shows "\<exists>body rest.
           after = body @ rest
           \<and> body \<noteq> []
           \<and> (rest = [] \<or> isTerminator rest)
           \<and> (\<forall>k<length body. \<not> isTerminator (drop k body @ rest))
           \<and> extractConfigSection content opt = Some (header @ body)"
proof -
  have at: "headerAt variant (drop (length pre) content) = Some (header, after)"
    using whole headerAt_complete [OF marker] by simp
  have none: "headerAt variant (drop j content) = None" if j: "j < length pre" for j
  proof (rule ccontr)
    assume "headerAt variant (drop j content) \<noteq> None"
    then obtain h a where ha: "headerAt variant (drop j content) = Some (h, a)" by auto
    from headerAt_marker [OF ha] have d: "drop j content = h @ a" and m: "isMarker variant h"
      by auto
    from d have "content = take j content @ h @ a"
      by (metis append_take_drop_id)
    with leftmost m have "length pre \<le> length (take j content)" by blast
    moreover from j whole have "length (take j content) = j" by simp
    ultimately show False using j by simp
  qed
  have le: "length pre \<le> length content"
    using whole by simp
  from none have "\<forall>j<length pre. headerAt variant (drop j content) = None" by blast
  with exec_complete [where m = "headerAt variant" and i = "length pre" and s = content
      and r = "(header, after)", OF le at]
  have ex: "exec (headerAt variant) content = Some (length pre, header, after)" by blast
  from nonempty noterm have ns: "\<not> headerStop after"
    by (simp add: headerStop_terminator)
  from lazyUntil_total [of headerStop after, OF headerStop_Nil] obtain body rest
    where lz: "lazyUntil headerStop after = Some (body, rest)" by blast
  from lazyUntil_sound [OF lz] have
    b: "after = body @ rest" "headerStop rest" "\<forall>k<length body. \<not> headerStop (drop k body @ rest)"
    by auto
  from lazyUntil_nonempty [OF lz ns] have ne: "body \<noteq> []" .
  from marker have hne: "header \<noteq> []"
    by (auto simp: isMarker_def)
  from exec_headerPattern [OF ex lz] hne ne
  have "tryVariant content variant = Some (header @ body)"
    by (simp add: tryVariant_def)
  with vs earlier have res: "extractConfigSection content opt = Some (header @ body)"
    by (simp add: extractConfigSection_def firstSome_skip)
  from b(2) have r: "rest = [] \<or> isTerminator rest"
    by (simp add: headerStop_terminator)
  from b(3) have k: "\<forall>k<length body. \<not> isTerminator (drop k body @ rest)"
    by (simp add: headerStop_terminator)
  from b(1) ne r k res show ?thesis by blast
qed

theorem extractConfigSection_heading_block_witness:
  "(\<exists>body rest.
      ''foo'' @ [NL] @ ''### [extruder]'' @ [NL] @ ''bar'' = body @ rest
      \<and> body \<noteq> []
      \<and> extractConfigSection bed_mesh_text ''BED_MESH'' = Some ((''### [bed_mesh]'' @ [NL]) @ body))
   \<and> extractConfigSection bed_mesh_text ''BED_MESH'' = Some (''### [bed_mesh]'' @ [NL] @ ''foo'')
   \<and> extractConfigSection bed_mesh_text ''bed_mesh'' = Some (''### [bed_mesh]'' @ [NL] @ ''foo'')
   \<and> extractConfigSection adjacent_text ''bed_mesh'' = Some adjacent_text"
proof -
  have vs: "optionVariants ''BED_MESH'' = [] @ ''BED_MESH'' # [''BED MESH'', ''BED_MESH'']"
    by (simp add: optionVariants_def replaceAll_def)
  have earlier: "\<forall>v\<in>set []. tryVariant bed_mesh_text v = None"
    by simp
  have whole: "bed_mesh_text
                 = [] @ (''### [bed_mesh]'' @ [NL]) @ (''foo'' @ [NL] @ ''### [extruder]'' @ [NL] @ ''bar'')"
    by (simp add: bed_mesh_text_def)
  have marker: "isMarker ''BED_MESH'' (''### [bed_mesh]'' @ [NL])"
    unfolding isMarker_def
    by (rule exI [of _ "'' ''"], rule exI [of _ "''bed_mesh''"], rule exI [of _ "[]"],
        rule exI [of _ "[]"]) code_simp
  have leftmost: "\<forall>p h a. bed_mesh_text = p @ h @ a \<and> isMarker ''BED_MESH'' h
                    \<longrightarrow> length ([] :: string) \<le> length p"
    by simp
  have nonempty: "''foo'' @ [NL] @ ''### [extruder]'' @ [NL] @ ''bar'' \<noteq> []"
    by simp
  have noterm: "\<not> isTerminator (''foo'' @ [NL] @ ''### [extruder]'' @ [NL] @ ''bar'')"
    by (simp add: isTerminator_def)
  from extractConfigSection_heading_block [OF vs earlier whole marker leftmost nonempty noterm]
  have "\<exists>body rest.
      ''foo'' @ [NL] @ ''### [extruder]'' @ [NL] @ ''bar'' = body @ rest
      \<and> body \<noteq> []
      \<and> extractConfigSection bed_mesh_text ''BED_MESH'' = Some ((''### [bed_mesh]'' @ [NL]) @ body)"
    by blast
  moreover have "extractConfigSection bed_mesh_text ''BED_MESH'' = Some (''### [bed_mesh]'' @ [NL] @ ''foo'')"
    by code_simp
  moreover have "extractConfigSection bed_mesh_text ''bed_mesh'' = Some (''### [bed_mesh]'' @ [NL] @ ''foo'')"
    by code_simp
  moreover have "extractConfigSection adjacent_text ''bed_mesh'' = Some adjacent_text"
    by code_simp
  ultimately show ?thesis by blast
qed

end
